theory Spec2Isabelle
  imports Main "HOL-Library.Word" "HOL-Library.Sublist"
begin

section \<open>The redirector of the link shortener (api/v1/redirector.go)\<close>

text \<open>
  The handler registered by \<open>registerRedirectorRoutes\<close> resolves a path segment to a
  stored shortcut, checks its visibility against the caller, records a view activity and
  renders a redirect, a plain-text body or an HTML page. Go strings are byte sequences;
  they are modelled as \<open>string\<close> (lists of 8-bit \<open>char\<close>).
\<close>

subsection \<open>Bytes and the \<open>strings\<close> helpers used by the code\<close>

definition byte :: "char \<Rightarrow> nat" where
  "byte c = of_char c"

definition isLower :: "char \<Rightarrow> bool" where
  "isLower c = (97 \<le> byte c \<and> byte c \<le> 122)"

definition isUpper :: "char \<Rightarrow> bool" where
  "isUpper c = (65 \<le> byte c \<and> byte c \<le> 90)"

definition isDigit :: "char \<Rightarrow> bool" where
  "isDigit c = (48 \<le> byte c \<and> byte c \<le> 57)"

text \<open>\<open>strings.HasPrefix\<close> is \<^const>\<open>prefix\<close>; \<open>strings.HasSuffix\<close> is \<^const>\<open>suffix\<close>.\<close>

text \<open>\<open>strings.Count(s, sep)\<close> for a one-byte separator.\<close>

definition Count :: "string \<Rightarrow> char \<Rightarrow> nat" where
  "Count s sep = length (filter (\<lambda>c. c = sep) s)"

text \<open>\<open>strings.Cut(s, sep)\<close> for a one-byte separator: the text before the first
  separator, the text after it, and whether the separator was found.\<close>

definition Cut :: "string \<Rightarrow> char \<Rightarrow> string \<times> string \<times> bool" where
  "Cut s sep = (takeWhile (\<lambda>c. c \<noteq> sep) s, drop 1 (dropWhile (\<lambda>c. c \<noteq> sep) s), sep \<in> set s)"

text \<open>\<open>strings.Index(s, substr)\<close>: the position of the first occurrence; Go's \<open>-1\<close> is
  \<open>None\<close>.\<close>

fun Index :: "string \<Rightarrow> string \<Rightarrow> nat option" where
  "Index [] sub = (if sub = [] then Some 0 else None)"
| "Index (c # cs) sub =
     (if prefix sub (c # cs) then Some 0 else map_option Suc (Index cs sub))"

text \<open>\<open>strings.LastIndex(s, sep)\<close> for a one-byte separator.\<close>

fun LastIndex :: "string \<Rightarrow> char \<Rightarrow> nat option" where
  "LastIndex [] sep = None"
| "LastIndex (c # cs) sep =
     (case LastIndex cs sep of
        Some i \<Rightarrow> Some (Suc i)
      | None \<Rightarrow> (if c = sep then Some 0 else None))"

text \<open>\<open>strings.ToLower\<close> on the bytes a scheme can hold (ASCII).\<close>

definition toLowerByte :: "char \<Rightarrow> char" where
  "toLowerByte c = (if isUpper c then char_of (byte c + 32) else c)"

definition ToLower :: "string \<Rightarrow> string" where
  "ToLower s = map toLowerByte s"

text \<open>\<open>strings.Join(elems, "")\<close> is \<^const>\<open>concat\<close>; \<open>fmt.Sprintf\<close> with \<open>%s\<close> verbs is
  concatenation of the format's pieces with the arguments.\<close>

subsection \<open>\<open>html.EscapeString\<close>\<close>

text \<open>The Go library replaces exactly five bytes: \<open>&\<close>, \<open>'\<close>, \<open><\<close>, \<open>>\<close> and the double
  quote (byte 0x22).\<close>

definition htmlEscapeByte :: "char \<Rightarrow> string" where
  "htmlEscapeByte c =
     (if c = CHR ''&'' then ''&amp;''
      else if c = CHR 0x27 then ''&#39;''
      else if c = CHR ''<'' then ''&lt;''
      else if c = CHR ''>'' then ''&gt;''
      else if c = CHR 0x22 then ''&#34;''
      else [c])"

definition EscapeString :: "string \<Rightarrow> string" where
  "EscapeString s = concat (map htmlEscapeByte s)"

subsection \<open>\<open>url.ParseRequestURI\<close> (Go's net/url)\<close>

text \<open>
  \<open>isValidURLString\<close> only asks whether \<open>url.ParseRequestURI\<close> returns an error. The
  parser belongs to the Go standard library; it is embedded here function by function
  (\<open>stringContainsCTLByte\<close>, \<open>getScheme\<close>, \<open>shouldEscape\<close>, \<open>unescape\<close>,
  \<open>validOptionalPort\<close>, \<open>validUserinfo\<close>, \<open>parseHost\<close>, \<open>parseAuthority\<close>, \<open>parse\<close>)
  as of Go 1.21. The parsed \<open>URL\<close> keeps the fields the parser fills on this path;
  \<open>RawPath\<close>, a re-encoding hint that never decides the error, is left out.
\<close>

datatype url_error =
    InvalidControlCharacter
  | EmptyURL
  | MissingProtocolScheme
  | InvalidURIForRequest
  | FirstPathSegmentColon
  | EscapeError string
  | InvalidHostError string
  | MissingBracketInHost
  | InvalidPort string
  | InvalidUserinfo

datatype encoding =
    encodePath
  | encodePathSegment
  | encodeHost
  | encodeZone
  | encodeUserPassword
  | encodeQueryComponent
  | encodeFragment

record Userinfo =
  username :: string
  password :: string
  passwordSet :: bool

record URL =
  Scheme :: string
  Opaque :: string
  User :: "Userinfo option"
  Host :: string
  Path :: string
  OmitHost :: bool
  ForceQuery :: bool
  RawQuery :: string

definition emptyURL :: URL where
  "emptyURL = \<lparr>Scheme = [], Opaque = [], User = None, Host = [], Path = [],
     OmitHost = False, ForceQuery = False, RawQuery = []\<rparr>"

definition stringContainsCTLByte :: "string \<Rightarrow> bool" where
  "stringContainsCTLByte s = list_ex (\<lambda>b. byte b < 0x20 \<or> byte b = 0x7f) s"

text \<open>\<open>getScheme\<close>: the loop over the index \<open>i\<close>; the third argument is \<open>rawURL[i:]\<close>.\<close>

fun getScheme_loop :: "string \<Rightarrow> nat \<Rightarrow> string \<Rightarrow> url_error + string \<times> string" where
  "getScheme_loop rawURL i [] = Inr ([], rawURL)"
| "getScheme_loop rawURL i (c # cs) =
     (if isLower c \<or> isUpper c then getScheme_loop rawURL (Suc i) cs
      else if isDigit c \<or> c = CHR ''+'' \<or> c = CHR ''-'' \<or> c = CHR ''.'' then
        (if i = 0 then Inr ([], rawURL) else getScheme_loop rawURL (Suc i) cs)
      else if c = CHR '':'' then
        (if i = 0 then Inl MissingProtocolScheme
         else Inr (take i rawURL, drop (Suc i) rawURL))
      else Inr ([], rawURL))"

definition getScheme :: "string \<Rightarrow> url_error + string \<times> string" where
  "getScheme rawURL = getScheme_loop rawURL 0 rawURL"

definition ishex :: "char \<Rightarrow> bool" where
  "ishex c = (isDigit c \<or> (97 \<le> byte c \<and> byte c \<le> 102) \<or> (65 \<le> byte c \<and> byte c \<le> 70))"

definition unhex :: "char \<Rightarrow> nat" where
  "unhex c =
     (if isDigit c then byte c - 48
      else if 97 \<le> byte c \<and> byte c \<le> 102 then byte c - 97 + 10
      else if 65 \<le> byte c \<and> byte c \<le> 70 then byte c - 65 + 10
      else 0)"

definition shouldEscape :: "char \<Rightarrow> encoding \<Rightarrow> bool" where
  "shouldEscape c mode =
     (if isLower c \<or> isUpper c \<or> isDigit c then False
      else if (mode = encodeHost \<or> mode = encodeZone) \<and>
              c \<in> set (''!$&'' @ [CHR 0x27] @ ''()*+,;=:[]<>'' @ [CHR 0x22]) then False
      else if c \<in> set ''-_.~'' then False
      else if c \<in> set ''$&+,/:;=?@'' \<and> mode = encodePath then c = CHR ''?''
      else if c \<in> set ''$&+,/:;=?@'' \<and> mode = encodePathSegment then
        c = CHR ''/'' \<or> c = CHR '';'' \<or> c = CHR '','' \<or> c = CHR ''?''
      else if c \<in> set ''$&+,/:;=?@'' \<and> mode = encodeUserPassword then
        c = CHR ''@'' \<or> c = CHR ''/'' \<or> c = CHR ''?'' \<or> c = CHR '':''
      else if c \<in> set ''$&+,/:;=?@'' \<and> mode = encodeQueryComponent then True
      else if c \<in> set ''$&+,/:;=?@'' \<and> mode = encodeFragment then False
      else if mode = encodeFragment \<and> c \<in> set ''!()*'' then False
      else True)"

text \<open>
  \<open>unescape\<close>: Go checks the whole string first and decodes afterwards; the recursion
  below checks and decodes byte by byte, which reports the same first error and the same
  decoded text.
\<close>

fun unescape :: "string \<Rightarrow> encoding \<Rightarrow> url_error + string" where
  "unescape [] mode = Inr []"
| "unescape (c # cs) mode =
     (if c = CHR ''%'' then
        (case cs of
           h1 # h2 # rest \<Rightarrow>
             if \<not> ishex h1 \<or> \<not> ishex h2 then Inl (EscapeError (take 3 (c # cs)))
             else if mode = encodeHost \<and> unhex h1 < 8 \<and> [c, h1, h2] \<noteq> ''%25'' then
               Inl (EscapeError [c, h1, h2])
             else if mode = encodeZone \<and> [c, h1, h2] \<noteq> ''%25'' \<and>
                     unhex h1 * 16 + unhex h2 \<noteq> 0x20 \<and>
                     shouldEscape (char_of (unhex h1 * 16 + unhex h2)) encodeHost then
               Inl (EscapeError [c, h1, h2])
             else
               (case unescape rest mode of
                  Inl e \<Rightarrow> Inl e
                | Inr t \<Rightarrow> Inr (char_of (unhex h1 * 16 + unhex h2) # t))
         | _ \<Rightarrow> Inl (EscapeError (take 3 (c # cs))))
      else if c = CHR ''+'' then
        (case unescape cs mode of
           Inl e \<Rightarrow> Inl e
         | Inr t \<Rightarrow> Inr ((if mode = encodeQueryComponent then CHR '' '' else CHR ''+'') # t))
      else if (mode = encodeHost \<or> mode = encodeZone) \<and> byte c < 0x80 \<and>
              shouldEscape c encodeHost then
        Inl (InvalidHostError [c])
      else
        (case unescape cs mode of
           Inl e \<Rightarrow> Inl e
         | Inr t \<Rightarrow> Inr (c # t)))"

definition validOptionalPort :: "string \<Rightarrow> bool" where
  "validOptionalPort port =
     (case port of
        [] \<Rightarrow> True
      | c # ds \<Rightarrow> c = CHR '':'' \<and> list_all isDigit ds)"

definition validUserinfo :: "string \<Rightarrow> bool" where
  "validUserinfo s =
     list_all (\<lambda>r. isUpper r \<or> isLower r \<or> isDigit r \<or>
                   r \<in> set (''-._:~!$&'' @ [CHR 0x27] @ ''()*+,;=%@'')) s"

definition parseHost :: "string \<Rightarrow> url_error + string" where
  "parseHost host =
     (if prefix ''['' host then
        (case LastIndex host (CHR '']'') of
           None \<Rightarrow> Inl MissingBracketInHost
         | Some i \<Rightarrow>
             let colonPort = drop (Suc i) host in
             if \<not> validOptionalPort colonPort then Inl (InvalidPort colonPort)
             else
               (case Index (take i host) ''%25'' of
                  Some zone \<Rightarrow>
                    (case unescape (take zone host) encodeHost of
                       Inl e \<Rightarrow> Inl e
                     | Inr host1 \<Rightarrow>
                         (case unescape (drop zone (take i host)) encodeZone of
                            Inl e \<Rightarrow> Inl e
                          | Inr host2 \<Rightarrow>
                              (case unescape (drop i host) encodeHost of
                                 Inl e \<Rightarrow> Inl e
                               | Inr host3 \<Rightarrow> Inr (host1 @ host2 @ host3))))
                | None \<Rightarrow> unescape host encodeHost))
      else
        (case LastIndex host (CHR '':'') of
           Some i \<Rightarrow>
             let colonPort = drop i host in
             if \<not> validOptionalPort colonPort then Inl (InvalidPort colonPort)
             else unescape host encodeHost
         | None \<Rightarrow> unescape host encodeHost))"

definition parseAuthority :: "string \<Rightarrow> url_error + Userinfo option \<times> string" where
  "parseAuthority authority =
     (let i = LastIndex authority (CHR ''@'') in
      case parseHost (case i of None \<Rightarrow> authority | Some k \<Rightarrow> drop (Suc k) authority) of
        Inl e \<Rightarrow> Inl e
      | Inr host \<Rightarrow>
          (case i of
             None \<Rightarrow> Inr (None, host)
           | Some k \<Rightarrow>
               let userinfo = take k authority in
               if \<not> validUserinfo userinfo then Inl InvalidUserinfo
               else if CHR '':'' \<notin> set userinfo then
                 (case unescape userinfo encodeUserPassword of
                    Inl e \<Rightarrow> Inl e
                  | Inr u \<Rightarrow>
                      Inr (Some \<lparr>username = u, password = [], passwordSet = False\<rparr>, host))
               else
                 (case Cut userinfo (CHR '':'') of
                    (username0, password0, _) \<Rightarrow>
                      (case unescape username0 encodeUserPassword of
                         Inl e \<Rightarrow> Inl e
                       | Inr u \<Rightarrow>
                           (case unescape password0 encodeUserPassword of
                              Inl e \<Rightarrow> Inl e
                            | Inr p \<Rightarrow>
                                Inr (Some \<lparr>username = u, password = p, passwordSet = True\<rparr>,
                                     host))))))"

text \<open>\<open>URL.setPath\<close>: the path is the unescaped text (mode \<open>encodePath\<close>).\<close>

definition setPath :: "URL \<Rightarrow> string \<Rightarrow> url_error + URL" where
  "setPath u p =
     (case unescape p encodePath of
        Inl e \<Rightarrow> Inl e
      | Inr path \<Rightarrow> Inr (u\<lparr>Path := path\<rparr>))"

text \<open>
  \<open>parse(rawURL, viaRequest)\<close>. The steps follow the Go function: control bytes, the
  empty string, the lone \<open>*\<close>, the scheme, the query, the opaque and the relative forms,
  the authority, the path.
\<close>

definition parse :: "string \<Rightarrow> bool \<Rightarrow> url_error + URL" where
  "parse rawURL viaRequest =
     (if stringContainsCTLByte rawURL then Inl InvalidControlCharacter
      else if rawURL = [] \<and> viaRequest then Inl EmptyURL
      else if rawURL = ''*'' then Inr (emptyURL\<lparr>Path := ''*''\<rparr>)
      else
        (case getScheme rawURL of
           Inl e \<Rightarrow> Inl e
         | Inr (scheme0, rest0) \<Rightarrow>
             let u0 = emptyURL\<lparr>Scheme := ToLower scheme0\<rparr>;
                 force = (suffix ''?'' rest0 \<and> Count rest0 (CHR ''?'') = 1);
                 rest = (if force then butlast rest0 else fst (Cut rest0 (CHR ''?'')));
                 u1 = (if force then u0\<lparr>ForceQuery := True\<rparr>
                       else u0\<lparr>RawQuery := fst (snd (Cut rest0 (CHR ''?'')))\<rparr>)
             in
             if \<not> prefix ''/'' rest \<and> Scheme u1 \<noteq> [] then Inr (u1\<lparr>Opaque := rest\<rparr>)
             else if \<not> prefix ''/'' rest \<and> viaRequest then Inl InvalidURIForRequest
             else if \<not> prefix ''/'' rest \<and> CHR '':'' \<in> set (fst (Cut rest (CHR ''/''))) then
               Inl FirstPathSegmentColon
             else if (Scheme u1 \<noteq> [] \<or> \<not> viaRequest \<and> \<not> prefix ''///'' rest) \<and>
                     prefix ''//'' rest then
               (let authority0 = drop 2 rest;
                    authority = (case Index authority0 ''/'' of
                                   Some i \<Rightarrow> take i authority0 | None \<Rightarrow> authority0);
                    rest' = (case Index authority0 ''/'' of
                               Some i \<Rightarrow> drop i authority0 | None \<Rightarrow> [])
                in case parseAuthority authority of
                     Inl e \<Rightarrow> Inl e
                   | Inr (user, host) \<Rightarrow> setPath (u1\<lparr>User := user, Host := host\<rparr>) rest')
             else if Scheme u1 \<noteq> [] \<and> prefix ''/'' rest then
               setPath (u1\<lparr>OmitHost := True\<rparr>) rest
             else setPath u1 rest))"

definition ParseRequestURI :: "string \<Rightarrow> url_error + URL" where
  "ParseRequestURI rawURL = parse rawURL True"

subsection \<open>\<open>isValidURLString\<close>\<close>

definition isValidURLString :: "string \<Rightarrow> bool" where
  "isValidURLString s = (case ParseRequestURI s of Inl err \<Rightarrow> False | Inr u \<Rightarrow> True)"

text \<open>The local \<open>rest\<close> of \<open>parse\<close> once the query is split off; it names that
  step in the lemmas about the parser.\<close>

definition queryRest :: "string \<Rightarrow> string" where
  "queryRest rest0 =
     (if suffix ''?'' rest0 \<and> Count rest0 (CHR ''?'') = 1 then butlast rest0
      else fst (Cut rest0 (CHR ''?'')))"

text \<open>
  Classes of bytes for the statements about the parser (they are not part of the code): the
  bytes \<open>getScheme\<close> lets a scheme hold, a scheme as it accepts one (a letter first), and
  the bytes of a host name made of letters, digits, dots and hyphens.
\<close>

definition schemeByte :: "char \<Rightarrow> bool" where
  "schemeByte c = (isLower c \<or> isUpper c \<or> isDigit c \<or> c = CHR ''+'' \<or> c = CHR ''-'' \<or> c = CHR ''.'')"

definition validScheme :: "string \<Rightarrow> bool" where
  "validScheme sch =
     (case sch of [] \<Rightarrow> False | c # cs \<Rightarrow> (isLower c \<or> isUpper c) \<and> list_all schemeByte cs)"

definition regNameByte :: "char \<Rightarrow> bool" where
  "regNameByte c = (isLower c \<or> isUpper c \<or> isDigit c \<or> c = CHR ''.'' \<or> c = CHR ''-'')"

subsection \<open>Data model\<close>

type_synonym int32 = "32 word"

text \<open>
  Modelled from the spec: the enum \<open>storepb.Visibility\<close> is generated protobuf code that
  is not among the sources; the spec gives its values as \<open>PUBLIC\<close>, \<open>PRIVATE\<close> and
  \<open>WORKSPACE\<close>. The handler compares it with \<open>PUBLIC\<close> and \<open>PRIVATE\<close> only.
\<close>

datatype Visibility = PUBLIC | PRIVATE | WORKSPACE

record OpenGraphMetadata =
  Title :: string
  Description :: string
  Image_og :: string

text \<open>\<open>storepb.Shortcut\<close>, with the fields the redirector reads. \<open>OgMetadata\<close> is a
  pointer in Go: \<open>nil\<close> is \<open>None\<close>.\<close>

record Shortcut =
  Id_sc :: int32
  CreatorId :: int32
  Name :: string
  Link :: string
  Visibility :: Visibility
  OgMetadata :: "OpenGraphMetadata option"

text \<open>\<open>store.FindShortcut\<close>: the handler sets the \<open>Name\<close> filter only.\<close>

record FindShortcut =
  find_Name :: "string option"

record ActivityShorcutViewPayload =
  ShortcutID :: int32
  IP :: string
  Referer :: string
  UserAgent :: string

datatype ActivityType = ActivityShortcutView

datatype ActivityLevel = ActivityInfo

record Activity =
  CreatorID :: int32
  Type :: ActivityType
  Level :: ActivityLevel
  Payload :: string

text \<open>
  What the handler reads from \<open>echo.Context\<close>: the route's parameter values, the value
  stored under \<open>userIDContextKey\<close> when it is an \<open>int32\<close> (the type assertion
  \<open>c.Get(userIDContextKey).(int32)\<close> fails on anything else, which is \<open>None\<close>), the
  caller's address and two request headers.
\<close>

record Context =
  c_ParamValues :: "string list"
  c_userID :: "int32 option"
  c_RealIP :: string
  c_Referer :: string
  c_UserAgent :: string

text \<open>
  The collaborators of \<open>APIV1Service\<close> are not among the sources (the store, the metric
  collector, \<open>json.Marshal\<close>, the constant \<open>BotID\<close>); the handler takes them as
  parameters. \<open>'w\<close> is the state they act on; a call returns an error message or a
  result, and the state after the call.
\<close>

record 'w APIV1Service =
  Store_GetShortcut :: "FindShortcut \<Rightarrow> 'w \<Rightarrow> (string + Shortcut option) \<times> 'w"
  Store_CreateActivity :: "Activity \<Rightarrow> 'w \<Rightarrow> (string + Activity) \<times> 'w"
  json_Marshal :: "ActivityShorcutViewPayload \<Rightarrow> string + string"
  metric_Enqueue :: "string \<Rightarrow> 'w \<Rightarrow> 'w"
  BotID :: int32

subsection \<open>Responses and errors of the handler\<close>

text \<open>An error returned by the handler: \<open>echo.NewHTTPError(code, message)\<close>, or echo's
  \<open>ErrInvalidRedirectCode\<close>.\<close>

datatype error = HTTPError nat string | ErrInvalidRedirectCode

text \<open>What the handler writes when it returns \<open>nil\<close>: a redirect (status, \<open>Location\<close>
  header), a \<open>text/plain\<close> body or a \<open>text/html\<close> body.\<close>

datatype Response =
    RedirectResponse nat string
  | StringResponse nat string
  | HTMLResponse nat string

abbreviation StatusOK :: nat where "StatusOK \<equiv> 200"
abbreviation StatusSeeOther :: nat where "StatusSeeOther \<equiv> 303"
abbreviation StatusBadRequest :: nat where "StatusBadRequest \<equiv> 400"
abbreviation StatusUnauthorized :: nat where "StatusUnauthorized \<equiv> 401"
abbreviation StatusInternalServerError :: nat where "StatusInternalServerError \<equiv> 500"

definition c_Redirect :: "nat \<Rightarrow> string \<Rightarrow> error + Response" where
  "c_Redirect code url =
     (if code < 300 \<or> code > 308 then Inl ErrInvalidRedirectCode
      else Inr (RedirectResponse code url))"

definition c_String :: "nat \<Rightarrow> string \<Rightarrow> error + Response" where
  "c_String code s = Inr (StringResponse code s)"

definition c_HTML :: "nat \<Rightarrow> string \<Rightarrow> error + Response" where
  "c_HTML code html = Inr (HTMLResponse code html)"

subsection \<open>\<open>redirectToShortcut\<close>\<close>

text \<open>The test of line 57: the metadata pointer is \<open>nil\<close> or all three fields are
  empty.\<close>

definition noOgMetadata :: "Shortcut \<Rightarrow> bool" where
  "noOgMetadata shortcut =
     (case OgMetadata shortcut of
        None \<Rightarrow> True
      | Some og \<Rightarrow> Title og = [] \<and> Description og = [] \<and> Image_og og = [])"

text \<open>The local \<open>metadataList\<close> after line 80: ten tags, and the \<open>og:url\<close> tag appended
  when the link is valid.\<close>

definition metadataList :: "OpenGraphMetadata \<Rightarrow> string \<Rightarrow> string list" where
  \<open>metadataList og link =
     [''<title>'' @ Title og @ ''</title>'',
      ''<meta name="description" content="'' @ Description og @ ''" />'',
      ''<meta property="og:title" content="'' @ Title og @ ''" />'',
      ''<meta property="og:description" content="'' @ Description og @ ''" />'',
      ''<meta property="og:image" content="'' @ Image_og og @ ''" />'',
      ''<meta property="og:type" content="website" />'',
      ''<meta name="twitter:title" content="'' @ Title og @ ''" />'',
      ''<meta name="twitter:description" content="'' @ Description og @ ''" />'',
      ''<meta name="twitter:image" content="'' @ Image_og og @ ''" />'',
      ''<meta name="twitter:card" content="summary_large_image" />'']
     @ (if isValidURLString link
        then [''<meta property="og:url" content="'' @ link @ ''" />'']
        else [])\<close>

text \<open>The local \<open>body\<close> after line 86.\<close>

definition body :: "string \<Rightarrow> string" where
  \<open>body link =
     (if isValidURLString link
      then ''<script>window.location.href = "'' @ link @ ''";</script>''
      else EscapeString link)\<close>

definition htmlTemplate :: "string \<Rightarrow> string \<Rightarrow> string" where
  "htmlTemplate h b = ''<html><head>'' @ h @ ''</head><body>'' @ b @ ''</body></html>''"

definition redirectToShortcut :: "Shortcut \<Rightarrow> error + Response" where
  "redirectToShortcut shortcut =
     (let isValidURL = isValidURLString (Link shortcut) in
      case OgMetadata shortcut of
        None \<Rightarrow>
          (if isValidURL then c_Redirect StatusSeeOther (Link shortcut)
           else c_String StatusOK (Link shortcut))
      | Some og \<Rightarrow>
          if Title og = [] \<and> Description og = [] \<and> Image_og og = [] then
            (if isValidURL then c_Redirect StatusSeeOther (Link shortcut)
             else c_String StatusOK (Link shortcut))
          else
            c_HTML StatusOK
              (htmlTemplate (concat (metadataList og (Link shortcut))) (body (Link shortcut))))"

subsection \<open>\<open>createShortcutViewActivity\<close>\<close>

definition createShortcutViewActivity ::
  "'w APIV1Service \<Rightarrow> Context \<Rightarrow> Shortcut \<Rightarrow> 'w \<Rightarrow> (string + unit) \<times> 'w" where
  "createShortcutViewActivity s c shortcut w =
     (let payload = \<lparr>ShortcutID = Id_sc shortcut, IP = c_RealIP c,
                      Referer = c_Referer c, UserAgent = c_UserAgent c\<rparr> in
      case json_Marshal s payload of
        Inl err \<Rightarrow> (Inl (''Failed to marshal activity payload: '' @ err), w)
      | Inr payloadStr \<Rightarrow>
          (let activity = \<lparr>CreatorID = BotID s, Type = ActivityShortcutView,
                           Level = ActivityInfo, Payload = payloadStr\<rparr> in
           case Store_CreateActivity s activity w of
             (Inl err, w') \<Rightarrow> (Inl (''Failed to create activity: '' @ err), w')
           | (Inr _, w') \<Rightarrow> (Inr (), w')))"

subsection \<open>The handler registered by \<open>registerRedirectorRoutes\<close>\<close>

text \<open>Lines 36 to 44: the error of the visibility check, if any.\<close>

definition visibilityCheck :: "Context \<Rightarrow> Shortcut \<Rightarrow> error option" where
  "visibilityCheck c shortcut =
     (if Visibility shortcut \<noteq> PUBLIC then
        (case c_userID c of
           None \<Rightarrow> Some (HTTPError StatusUnauthorized ''Unauthorized'')
         | Some userID \<Rightarrow>
             if Visibility shortcut = PRIVATE \<and> CreatorId shortcut \<noteq> userID
             then Some (HTTPError StatusUnauthorized ''Unauthorized'')
             else None)
      else None)"

text \<open>The function passed to \<open>g.GET("/*", ...)\<close>: the result is the error returned or
  the response written, with the state of the collaborators after the request.\<close>

definition registerRedirectorRoutes ::
  "'w APIV1Service \<Rightarrow> Context \<Rightarrow> 'w \<Rightarrow> (error + Response) \<times> 'w" where
  "registerRedirectorRoutes s c w =
     (case c_ParamValues c of
        [] \<Rightarrow> (Inl (HTTPError StatusBadRequest ''invalid shortcut name''), w)
      | shortcutName # _ \<Rightarrow>
          (case Store_GetShortcut s \<lparr>find_Name = Some shortcutName\<rparr> w of
             (Inl err, w1) \<Rightarrow>
               (Inl (HTTPError StatusInternalServerError
                       (''failed to get shortcut, err: '' @ err)), w1)
           | (Inr None, w1) \<Rightarrow>
               (c_Redirect StatusSeeOther (''/404?shortcut='' @ shortcutName), w1)
           | (Inr (Some shortcut), w1) \<Rightarrow>
               (case visibilityCheck c shortcut of
                  Some e \<Rightarrow> (Inl e, w1)
                | None \<Rightarrow>
                    (case createShortcutViewActivity s c shortcut w1 of
                       (Inl err, w2) \<Rightarrow>
                         (Inl (HTTPError StatusInternalServerError
                                 (''failed to create activity, err: '' @ err)), w2)
                     | (Inr _, w2) \<Rightarrow>
                         (redirectToShortcut shortcut,
                          metric_Enqueue s ''shortcut redirect'' w2)))))"

subsection \<open>An in-memory store, to run the handler on concrete requests\<close>

text \<open>
  The state holds the shortcut rows, the activity rows written, the store methods called
  (in order) and the metric events. The lookup matches the name exactly; neither call
  fails.
\<close>

record MemWorld =
  shortcuts :: "Shortcut list"
  activities :: "Activity list"
  storeCalls :: "string list"
  metricEvents :: "string list"

definition memService :: "MemWorld APIV1Service" where
  "memService =
     \<lparr>Store_GetShortcut = (\<lambda>f w.
          (Inr (find (\<lambda>sc. Some (Name sc) = find_Name f) (shortcuts w)),
           w\<lparr>storeCalls := storeCalls w @ [''GetShortcut'']\<rparr>)),
      Store_CreateActivity = (\<lambda>a w.
          (Inr a, w\<lparr>activities := activities w @ [a],
                     storeCalls := storeCalls w @ [''CreateActivity'']\<rparr>)),
      json_Marshal = (\<lambda>p. Inr (IP p @ '' '' @ Referer p @ '' '' @ UserAgent p)),
      metric_Enqueue = (\<lambda>e w. w\<lparr>metricEvents := metricEvents w @ [e]\<rparr>),
      BotID = 0\<rparr>"

definition memWorld :: "Shortcut list \<Rightarrow> MemWorld" where
  "memWorld scs = \<lparr>shortcuts = scs, activities = [], storeCalls = [], metricEvents = []\<rparr>"

definition mkRequest :: "string list \<Rightarrow> int32 option \<Rightarrow> Context" where
  "mkRequest params uid =
     \<lparr>c_ParamValues = params, c_userID = uid, c_RealIP = ''10.0.0.1'',
      c_Referer = [], c_UserAgent = ''curl''\<rparr>"

definition mkShortcut :: "string \<Rightarrow> string \<Rightarrow> Visibility \<Rightarrow> OpenGraphMetadata option \<Rightarrow> Shortcut" where
  "mkShortcut n l v og =
     \<lparr>Id_sc = 1, CreatorId = 7, Name = n, Link = l, Visibility = v, OgMetadata = og\<rparr>"

subsection \<open>URL-encoding, as the spec asks for the not-found redirect\<close>

text \<open>
  This definition follows the spec's words (``URL-encode the name''), not the handler:
  it is Go's \<open>url.QueryEscape\<close>, the encoding of a query parameter value (a space
  becomes \<open>+\<close>, every byte that \<open>shouldEscape\<close> reserves in a query component becomes
  \<open>%XX\<close>). It is compared with what the handler puts into the \<open>Location\<close> header.
\<close>

definition upperhex :: string where
  "upperhex = ''0123456789ABCDEF''"

definition spec_urlEncode :: "string \<Rightarrow> string" where
  "spec_urlEncode s =
     concat (map (\<lambda>c. if c = CHR '' '' then ''+''
                       else if shouldEscape c encodeQueryComponent
                       then [CHR ''%'', upperhex ! (byte c div 16), upperhex ! (byte c mod 16)]
                       else [c]) s)"

section \<open>Properties\<close>

subsection \<open>What the parser accepts\<close>

lemma drop_Cons_Suc: "drop i xs = c # cs \<Longrightarrow> drop (Suc i) xs = cs"
  by (metis drop_Suc list.sel(3) tl_drop)

lemma getScheme_loop_cases:
  "getScheme_loop rawURL i xs = Inr (sch, r) \<Longrightarrow> xs = drop i rawURL \<Longrightarrow>
     (sch = [] \<and> r = rawURL) \<or> (sch \<noteq> [] \<and> rawURL = sch @ CHR '':'' # r)"
proof (induction xs arbitrary: i)
  case Nil
  then show ?case by simp
next
  case (Cons c cs)
  have tl: "cs = drop (Suc i) rawURL"
    using drop_Cons_Suc [OF Cons.prems(2) [symmetric]] by simp
  have len: "i < length rawURL"
    using Cons.prems(2) by (metis drop_all list.distinct(1) not_le)
  have split: "rawURL = take i rawURL @ c # drop (Suc i) rawURL"
    using Cons.prems(2) tl by (metis append_take_drop_id)
  show ?case
  proof (cases "isLower c \<or> isUpper c")
    case True
    then show ?thesis using Cons.IH [OF _ tl] Cons.prems(1) by simp
  next
    case notalpha: False
    show ?thesis
    proof (cases "isDigit c \<or> c = CHR ''+'' \<or> c = CHR ''-'' \<or> c = CHR ''.''")
      case True
      then show ?thesis using notalpha Cons.IH [OF _ tl] Cons.prems(1)
        by (auto split: if_splits)
    next
      case False
      then show ?thesis using notalpha Cons.prems(1) len split
        by (auto split: if_splits)
    qed
  qed
qed

lemma getScheme_cases:
  "getScheme s = Inr (sch, r) \<Longrightarrow> (sch = [] \<and> r = s) \<or> (sch \<noteq> [] \<and> s = sch @ CHR '':'' # r)"
  using getScheme_loop_cases [of s 0 s sch r] by (simp add: getScheme_def)

lemma unescape_no_percent:
  "CHR ''%'' \<notin> set xs \<Longrightarrow> unescape xs encodePath = Inr xs"
  by (induction xs) auto

lemma prefix_slash_butlast: "prefix ''/'' (butlast s) \<Longrightarrow> prefix ''/'' s"
  by (cases s) (auto split: if_splits)

lemma prefix_slash_takeWhile: "prefix ''/'' (takeWhile P s) \<Longrightarrow> prefix ''/'' s"
  by (cases s) (auto split: if_splits)


lemma prefix_slash_queryRest: "prefix ''/'' (queryRest r) \<Longrightarrow> prefix ''/'' r"
proof (cases "suffix ''?'' r \<and> Count r (CHR ''?'') = 1")
  case True
  assume "prefix ''/'' (queryRest r)"
  with True have "prefix ''/'' (butlast r)" by (simp add: queryRest_def)
  then show ?thesis by (rule prefix_slash_butlast)
next
  case False
  assume "prefix ''/'' (queryRest r)"
  moreover from False have "queryRest r = takeWhile (\<lambda>c. c \<noteq> CHR ''?'') r"
    unfolding queryRest_def Cut_def by (subst if_not_P) simp_all
  ultimately have "prefix ''/'' (takeWhile (\<lambda>c. c \<noteq> CHR ''?'') r)" by simp
  then show ?thesis by (rule prefix_slash_takeWhile)
qed

lemma not_suffix_q_slash: "\<not> suffix ''?'' ''/''"
  by (simp add: suffix_Cons)

lemma queryRest_slash:
  assumes "prefix ''/'' r"
  shows "prefix ''/'' (queryRest r)"
proof -
  from assms obtain t where r: "r = CHR ''/'' # t" by (cases r) auto
  show ?thesis
  proof (cases "suffix ''?'' r \<and> Count r (CHR ''?'') = 1")
    case True
    then have "t \<noteq> []" using r not_suffix_q_slash by auto
    then have "butlast r = CHR ''/'' # butlast t" using r by simp
    then show ?thesis using True by (simp add: queryRest_def)
  next
    case False
    then have "queryRest r = takeWhile (\<lambda>c. c \<noteq> CHR ''?'') r"
      unfolding queryRest_def Cut_def by (subst if_not_P) simp_all
    then show ?thesis using r by simp
  qed
qed

lemma set_queryRest: "set (queryRest r) \<subseteq> set r"
proof (cases "suffix ''?'' r \<and> Count r (CHR ''?'') = 1")
  case True
  then have "queryRest r = butlast r" by (simp add: queryRest_def)
  then show ?thesis by (auto dest: in_set_butlastD)
next
  case False
  then have "queryRest r = takeWhile (\<lambda>c. c \<noteq> CHR ''?'') r"
    unfolding queryRest_def Cut_def by (subst if_not_P) simp_all
  then show ?thesis by (auto dest: set_takeWhileD)
qed


lemma parse_no_scheme:
  assumes "\<not> stringContainsCTLByte s" "s \<noteq> []" "s \<noteq> ''*''" "getScheme s = Inr ([], r)"
  shows "parse s True =
     (if \<not> prefix ''/'' (queryRest r) then Inl InvalidURIForRequest
      else setPath (if suffix ''?'' r \<and> Count r (CHR ''?'') = 1
                    then emptyURL\<lparr>Scheme := [], ForceQuery := True\<rparr>
                    else emptyURL\<lparr>Scheme := [], RawQuery := fst (snd (Cut r (CHR ''?'')))\<rparr>)
             (queryRest r))"
proof (cases "suffix ''?'' r")
  case suf: True
  show ?thesis
  proof (cases "Count r (CHR ''?'') = 1")
    case True
    with suf assms show ?thesis
      by (simp add: parse_def Let_def ToLower_def queryRest_def)
  next
    case False
    with suf assms show ?thesis
      by (simp add: parse_def Let_def ToLower_def queryRest_def)
  qed
next
  case False
  with assms show ?thesis
    by (simp add: parse_def Let_def ToLower_def queryRest_def)
qed

lemma parse_opaque:
  assumes "\<not> stringContainsCTLByte s" "getScheme s = Inr (sch, r)" "sch \<noteq> []"
    "\<not> prefix ''/'' (queryRest r)"
  shows "\<exists>u. parse s True = Inr u"
proof (cases "s = ''*''")
  case True
  then show ?thesis using assms(1) by (simp add: parse_def)
next
  case star: False
  have ne: "s \<noteq> []" using getScheme_cases [OF assms(2)] assms(3) by auto
  show ?thesis
  proof (cases "suffix ''?'' r")
    case suf: True
    show ?thesis
    proof (cases "Count r (CHR ''?'') = 1")
      case True
      with suf assms star ne show ?thesis
        by (simp add: parse_def Let_def ToLower_def queryRest_def)
    next
      case False
      with suf assms star ne show ?thesis
        by (simp add: parse_def Let_def ToLower_def queryRest_def)
    qed
  next
    case False
    with assms star ne show ?thesis
      by (simp add: parse_def Let_def ToLower_def queryRest_def)
  qed
qed

lemma setPath_no_percent: "CHR ''%'' \<notin> set p \<Longrightarrow> setPath u p = Inr (u\<lparr>Path := p\<rparr>)"
  by (simp add: setPath_def unescape_no_percent)

lemma getScheme_slash: "getScheme (CHR ''/'' # t) = Inr ([], CHR ''/'' # t)"
  by (simp add: getScheme_def isLower_def isUpper_def isDigit_def byte_def)

lemma isValid_shape:
  assumes "isValidURLString s"
  shows "s \<noteq> [] \<and> \<not> stringContainsCTLByte s \<and>
     (s = ''*'' \<or> prefix ''/'' s \<or> (\<exists>sch r. sch \<noteq> [] \<and> getScheme s = Inr (sch, r) \<and> s = sch @ '':'' @ r))"
proof -
  from assms obtain u where ok: "parse s True = Inr u"
    by (auto simp: isValidURLString_def ParseRequestURI_def split: sum.splits)
  have ctl: "\<not> stringContainsCTLByte s"
    using ok by (auto simp: parse_def split: if_splits)
  have ne: "s \<noteq> []"
    using ok by (auto simp: parse_def split: if_splits)
  show ?thesis
  proof (cases "s = ''*''")
    case True
    then show ?thesis using ctl by simp
  next
    case False
    have "\<exists>sch r. getScheme s = Inr (sch, r)"
    proof (cases "getScheme s")
      case (Inl e)
      then show ?thesis using ok ctl ne False by (simp add: parse_def)
    next
      case (Inr p)
      then show ?thesis by (cases p) simp
    qed
    then obtain sch r where gs: "getScheme s = Inr (sch, r)" by blast
    show ?thesis
    proof (cases "sch = []")
      case True
      with getScheme_cases [OF gs] have r: "r = s" by simp
      have "prefix ''/'' (queryRest s)"
        using ok parse_no_scheme [OF ctl ne False gs [unfolded True]] r
        by (auto split: if_splits)
      then show ?thesis using ctl ne prefix_slash_queryRest by blast
    next
      case False
      with getScheme_cases [OF gs] gs ctl ne show ?thesis by auto
    qed
  qed
qed

lemma isValid_abs_path:
  assumes "\<not> stringContainsCTLByte s" "prefix ''/'' s" "CHR ''%'' \<notin> set s"
  shows "isValidURLString s"
proof -
  from assms(2) obtain t where s: "s = CHR ''/'' # t" by (cases s) auto
  have ne: "s \<noteq> []" and star: "s \<noteq> ''*''" using s by auto
  have gs: "getScheme s = Inr ([], s)" using s getScheme_slash by simp
  have p: "prefix ''/'' (queryRest s)" using assms(2) by (rule queryRest_slash)
  have np: "CHR ''%'' \<notin> set (queryRest s)" using assms(3) set_queryRest by blast
  show ?thesis
    using parse_no_scheme [OF assms(1) ne star gs] p np
    by (simp add: isValidURLString_def ParseRequestURI_def setPath_no_percent)
qed

lemma isValid_opaque:
  assumes "\<not> stringContainsCTLByte s" "getScheme s = Inr (sch, r)" "sch \<noteq> []" "\<not> prefix ''/'' r"
  shows "isValidURLString s"
proof -
  have "\<not> prefix ''/'' (queryRest r)" using assms(4) prefix_slash_queryRest by blast
  from parse_opaque [OF assms(1,2,3) this] show ?thesis
    by (auto simp: isValidURLString_def ParseRequestURI_def)
qed

lemma colon_class: "\<not> isLower (CHR '':'')" "\<not> isUpper (CHR '':'')" "\<not> isDigit (CHR '':'')"
  by (simp_all add: isLower_def isUpper_def isDigit_def byte_def)

lemma getScheme_loop_valid:
  "list_all schemeByte xs \<Longrightarrow> raw = pre @ xs @ CHR '':'' # r \<Longrightarrow>
   (pre = [] \<longrightarrow> xs \<noteq> [] \<and> (isLower (hd xs) \<or> isUpper (hd xs))) \<Longrightarrow>
   getScheme_loop raw (length pre) (xs @ CHR '':'' # r) = Inr (pre @ xs, r)"
proof (induction xs arbitrary: pre)
  case Nil
  then show ?case by (simp add: colon_class)
next
  case (Cons x xs)
  have step: "getScheme_loop raw (length (pre @ [x])) (xs @ CHR '':'' # r) = Inr ((pre @ [x]) @ xs, r)"
    using Cons.prems by (intro Cons.IH) simp_all
  show ?case
  proof (cases "isLower x \<or> isUpper x")
    case True
    then show ?thesis using step by simp
  next
    case False
    then have "pre \<noteq> []" using Cons.prems(3) by auto
    moreover have "isDigit x \<or> x = CHR ''+'' \<or> x = CHR ''-'' \<or> x = CHR ''.''"
      using Cons.prems(1) False by (auto simp: schemeByte_def)
    ultimately show ?thesis using False step by simp
  qed
qed

lemma getScheme_valid:
  assumes "validScheme sch"
  shows "getScheme (sch @ CHR '':'' # r) = Inr (sch, r)"
proof -
  from assms obtain c cs where sch: "sch = c # cs" and c: "isLower c \<or> isUpper c"
    and cs: "list_all schemeByte cs"
    by (auto simp: validScheme_def split: list.splits)
  have "list_all schemeByte sch" using sch c cs by (auto simp: schemeByte_def)
  from getScheme_loop_valid [OF this, of "sch @ CHR '':'' # r" "[]" r] sch c
  show ?thesis by (simp add: getScheme_def)
qed

lemma Index_slash_None: "CHR ''/'' \<notin> set hp \<Longrightarrow> Index hp ''/'' = None"
  by (induction hp) auto

lemma Index_slash_Some:
  "CHR ''/'' \<notin> set hp \<Longrightarrow> Index (hp @ CHR ''/'' # p) ''/'' = Some (length hp)"
  by (induction hp) auto

lemma LastIndex_None: "sep \<notin> set xs \<Longrightarrow> LastIndex xs sep = None"
  by (induction xs) auto

lemma LastIndex_append_sep:
  "sep \<notin> set ys \<Longrightarrow> LastIndex (xs @ sep # ys) sep = Some (length xs)"
  by (induction xs) (auto simp: LastIndex_None)

lemma regNameByte_facts:
  assumes "regNameByte c"
  shows "c \<noteq> CHR ''%''" "c \<noteq> CHR ''+''" "c \<noteq> CHR ''/''" "c \<noteq> CHR ''?''" "c \<noteq> CHR ''@''"
    "c \<noteq> CHR '':''" "c \<noteq> CHR ''[''" "\<not> shouldEscape c encodeHost"
    "\<not> (byte c < 0x20 \<or> byte c = 0x7f)"
  using assms
  by (auto simp: regNameByte_def shouldEscape_def isLower_def isUpper_def isDigit_def byte_def)

lemma digit_facts:
  assumes "isDigit c"
  shows "c \<noteq> CHR ''%''" "c \<noteq> CHR ''+''" "c \<noteq> CHR ''/''" "c \<noteq> CHR ''?''" "c \<noteq> CHR ''@''"
    "c \<noteq> CHR '':''" "\<not> shouldEscape c encodeHost" "\<not> (byte c < 0x20 \<or> byte c = 0x7f)"
  using assms by (auto simp: shouldEscape_def isDigit_def byte_def)

lemma schemeByte_not_ctl: "schemeByte c \<Longrightarrow> \<not> (byte c < 0x20 \<or> byte c = 0x7f)"
  by (auto simp: schemeByte_def isLower_def isUpper_def isDigit_def byte_def)


lemma colon_facts:
  "CHR '':'' \<noteq> CHR ''%''" "CHR '':'' \<noteq> CHR ''+''" "\<not> shouldEscape (CHR '':'') encodeHost"
  by (simp_all add: shouldEscape_def isLower_def isUpper_def isDigit_def byte_def)

lemma unescape_host_bytes:
  "list_all (\<lambda>c. regNameByte c \<or> c = CHR '':'') hp \<Longrightarrow> unescape hp encodeHost = Inr hp"
proof (induction hp)
  case Nil
  then show ?case by simp
next
  case (Cons c hp)
  then have ih: "unescape hp encodeHost = Inr hp" by simp
  have c: "c \<noteq> CHR ''%''" "c \<noteq> CHR ''+''" "\<not> shouldEscape c encodeHost"
    using Cons.prems regNameByte_facts [of c] colon_facts by auto
  show ?case using ih c by simp
qed

lemma port_bytes:
  assumes "validOptionalPort port"
  shows "list_all (\<lambda>c. regNameByte c \<or> c = CHR '':'') port"
proof (cases port)
  case Nil
  then show ?thesis by simp
next
  case (Cons c ds)
  with assms have "c = CHR '':''" and "list_all isDigit ds"
    by (simp_all add: validOptionalPort_def)
  then show ?thesis using Cons
    by (auto simp: regNameByte_def list_all_iff)
qed

lemma parseHost_regname_port:
  assumes "list_all regNameByte host" and "validOptionalPort port"
  shows "parseHost (host @ port) = Inr (host @ port)"
proof -
  have bytes: "list_all (\<lambda>c. regNameByte c \<or> c = CHR '':'') (host @ port)"
    using assms(1) port_bytes [OF assms(2)] by (auto simp: list_all_iff)
  have ok: "unescape (host @ port) encodeHost = Inr (host @ port)"
    using bytes by (rule unescape_host_bytes)
  have nocolon: "CHR '':'' \<notin> set host"
    using assms(1) regNameByte_facts(6) by (auto simp: list_all_iff)
  have nobr: "\<not> prefix ''['' (host @ port)"
  proof (cases host)
    case Nil
    then show ?thesis using assms(2) by (cases port) (auto simp: validOptionalPort_def)
  next
    case (Cons c cs)
    then have "c \<noteq> CHR ''[''" using assms(1) regNameByte_facts(7) [of c] by auto
    then show ?thesis using Cons by simp
  qed
  show ?thesis
  proof (cases port)
    case Nil
    then have "LastIndex (host @ port) (CHR '':'') = None"
      using nocolon by (simp add: LastIndex_None)
    then show ?thesis using nobr ok by (simp add: parseHost_def)
  next
    case (Cons c ds)
    with assms(2) have c: "c = CHR '':''" and ds: "list_all isDigit ds"
      by (simp_all add: validOptionalPort_def)
    have "CHR '':'' \<notin> set ds" using ds digit_facts(6) by (auto simp: list_all_iff)
    then have "LastIndex (host @ port) (CHR '':'') = Some (length host)"
      using Cons c by (simp add: LastIndex_append_sep)
    then show ?thesis using nobr ok assms(2) by (simp add: parseHost_def)
  qed
qed

lemma parseAuthority_regname_port:
  assumes "list_all regNameByte host" and "validOptionalPort port"
  shows "parseAuthority (host @ port) = Inr (None, host @ port)"
proof -
  have "CHR ''@'' \<notin> set host"
    using assms(1) regNameByte_facts(5) by (auto simp: list_all_iff)
  moreover have "CHR ''@'' \<notin> set port"
    using port_bytes [OF assms(2)] regNameByte_facts(5) by (auto simp: list_all_iff)
  ultimately have "LastIndex (host @ port) (CHR ''@'') = None"
    by (simp add: LastIndex_None)
  then show ?thesis
    using parseHost_regname_port [OF assms] by (simp add: parseAuthority_def)
qed

lemma queryRest_tail:
  assumes "CHR ''?'' \<notin> set pre" and "pre \<noteq> []"
  shows "\<exists>tail'. queryRest (pre @ tail) = pre @ tail' \<and>
           (tail' = [] \<or> prefix (take 1 tail) tail') \<and> set tail' \<subseteq> set tail"
proof (cases "suffix ''?'' (pre @ tail) \<and> Count (pre @ tail) (CHR ''?'') = 1")
  case True
  then have q: "queryRest (pre @ tail) = butlast (pre @ tail)" by (simp add: queryRest_def)
  have "tail \<noteq> []"
  proof
    assume "tail = []"
    with True have "suffix ''?'' pre" by simp
    then have "CHR ''?'' \<in> set pre" by (auto simp: suffix_def)
    with assms(1) show False by simp
  qed
  then have b: "butlast (pre @ tail) = pre @ butlast tail" by (simp add: butlast_append)
  have "butlast tail = [] \<or> prefix (take 1 tail) (butlast tail)"
    using \<open>tail \<noteq> []\<close> by (cases tail) auto
  moreover have "set (butlast tail) \<subseteq> set tail" by (auto dest: in_set_butlastD)
  ultimately show ?thesis using q b by auto
next
  case False
  then have "queryRest (pre @ tail) = takeWhile (\<lambda>c. c \<noteq> CHR ''?'') (pre @ tail)"
    unfolding queryRest_def Cut_def by (subst if_not_P) simp_all
  also have "\<dots> = pre @ takeWhile (\<lambda>c. c \<noteq> CHR ''?'') tail"
    using assms(1) by (intro takeWhile_append2) auto
  finally have q: "queryRest (pre @ tail) = pre @ takeWhile (\<lambda>c. c \<noteq> CHR ''?'') tail" .
  have "takeWhile (\<lambda>c. c \<noteq> CHR ''?'') tail = [] \<or>
        prefix (take 1 tail) (takeWhile (\<lambda>c. c \<noteq> CHR ''?'') tail)"
    by (cases tail) auto
  moreover have "set (takeWhile (\<lambda>c. c \<noteq> CHR ''?'') tail) \<subseteq> set tail"
    by (auto dest: set_takeWhileD)
  ultimately show ?thesis using q by auto
qed


lemma host_byte_not_ctl:
  "regNameByte c \<or> c = CHR '':'' \<Longrightarrow> \<not> (byte c < 0x20 \<or> byte c = 0x7f)"
  by (auto simp: regNameByte_def isLower_def isUpper_def isDigit_def byte_def)

lemma parse_with_authority:
  assumes "\<not> stringContainsCTLByte s" "s \<noteq> []" "s \<noteq> ''*''"
    and "getScheme s = Inr (sch, r)" "sch \<noteq> []"
    and "queryRest r = CHR ''/'' # CHR ''/'' # a"
  shows "\<exists>u1. parse s True =
     (case parseAuthority (case Index a ''/'' of Some i \<Rightarrow> take i a | None \<Rightarrow> a) of
        Inl e \<Rightarrow> Inl e
      | Inr (user, host) \<Rightarrow>
          setPath (u1\<lparr>User := user, Host := host\<rparr>)
            (case Index a ''/'' of Some i \<Rightarrow> drop i a | None \<Rightarrow> []))"
proof (cases "suffix ''?'' r")
  case suf: True
  show ?thesis
  proof (cases "Count r (CHR ''?'') = 1")
    case True
    with suf assms(6) have q: "butlast r = CHR ''/'' # CHR ''/'' # a"
      by (simp add: queryRest_def)
    show ?thesis
      using assms(1-5) suf True q
      by (intro exI [of _ "emptyURL\<lparr>Scheme := map toLowerByte sch, ForceQuery := True\<rparr>"])
         (simp add: parse_def Let_def ToLower_def)
  next
    case False
    with suf assms(6) have q: "fst (Cut r (CHR ''?'')) = CHR ''/'' # CHR ''/'' # a"
      by (simp add: queryRest_def)
    show ?thesis
      using assms(1-5) suf False q
      by (intro exI [of _ "emptyURL\<lparr>Scheme := map toLowerByte sch,
                             RawQuery := fst (snd (Cut r (CHR ''?'')))\<rparr>"])
         (simp add: parse_def Let_def ToLower_def)
  qed
next
  case False
  with assms(6) have q: "fst (Cut r (CHR ''?'')) = CHR ''/'' # CHR ''/'' # a"
    by (simp add: queryRest_def)
  show ?thesis
    using assms(1-5) False q
    by (intro exI [of _ "emptyURL\<lparr>Scheme := map toLowerByte sch,
                           RawQuery := fst (snd (Cut r (CHR ''?'')))\<rparr>"])
       (simp add: parse_def Let_def ToLower_def)
qed

lemma isValid_authority:
  assumes "validScheme sch" and "list_all regNameByte host" and "validOptionalPort port"
    and "tail = [] \<or> prefix ''/'' tail"
    and "\<not> stringContainsCTLByte tail" and "CHR ''%'' \<notin> set tail"
  shows "isValidURLString (sch @ ''://'' @ host @ port @ tail)"
proof -
  let ?s = "sch @ ''://'' @ host @ port @ tail"
  let ?r = "''//'' @ host @ port @ tail"
  have s: "?s = sch @ CHR '':'' # ?r" by simp
  have gs: "getScheme ?s = Inr (sch, ?r)"
    unfolding s using assms(1) by (rule getScheme_valid)
  have sch_ne: "sch \<noteq> []" using assms(1) by (auto simp: validScheme_def)
  have sch_bytes: "list_all schemeByte sch"
    using assms(1) by (auto simp: validScheme_def schemeByte_def split: list.splits)
  have hp_bytes: "list_all (\<lambda>c. regNameByte c \<or> c = CHR '':'') (host @ port)"
    using assms(2) port_bytes [OF assms(3)] by (auto simp: list_all_iff)
  have hp_ctl: "\<not> stringContainsCTLByte (host @ port)"
    using hp_bytes host_byte_not_ctl
    unfolding stringContainsCTLByte_def list_all_iff list_ex_iff by blast
  have sch_ctl: "\<not> stringContainsCTLByte sch"
    using sch_bytes schemeByte_not_ctl
    unfolding stringContainsCTLByte_def list_all_iff list_ex_iff by blast
  have fixed_ctl: "\<not> stringContainsCTLByte ''://''"
    by (simp add: stringContainsCTLByte_def byte_def)
  have ctl: "\<not> stringContainsCTLByte ?s"
    using sch_ctl fixed_ctl hp_ctl assms(5)
    unfolding stringContainsCTLByte_def list_ex_iff by auto
  have ne: "?s \<noteq> []" and star: "?s \<noteq> ''*''"
    using sch_ne by (auto simp: append_eq_Cons_conv)
  have noq: "CHR ''?'' \<notin> set (''//'' @ host @ port)"
    using hp_bytes regNameByte_facts(4) by (auto simp: list_all_iff)
  have nosl: "CHR ''/'' \<notin> set (host @ port)"
    using hp_bytes regNameByte_facts(3) by (auto simp: list_all_iff)
  from queryRest_tail [OF noq, of tail] obtain tail' where
    q: "queryRest ((''//'' @ host @ port) @ tail) = (''//'' @ host @ port) @ tail'"
    and t: "tail' = [] \<or> prefix (take 1 tail) tail'" and sub: "set tail' \<subseteq> set tail"
    by auto
  have q': "queryRest ?r = CHR ''/'' # CHR ''/'' # ((host @ port) @ tail')"
    using q by simp
  have t': "tail' = [] \<or> (\<exists>p. tail' = CHR ''/'' # p)"
    using t sub assms(4) by (cases tail; cases tail') auto
  have np: "CHR ''%'' \<notin> set tail'" using sub assms(6) by auto
  from parse_with_authority [OF ctl ne star gs sch_ne q'] obtain u1 where
    p: "parse ?s True =
     (case parseAuthority (case Index ((host @ port) @ tail') ''/'' of
                             Some i \<Rightarrow> take i ((host @ port) @ tail')
                           | None \<Rightarrow> (host @ port) @ tail') of
        Inl e \<Rightarrow> Inl e
      | Inr (user, h) \<Rightarrow>
          setPath (u1\<lparr>User := user, Host := h\<rparr>)
            (case Index ((host @ port) @ tail') ''/'' of
               Some i \<Rightarrow> drop i ((host @ port) @ tail') | None \<Rightarrow> []))"
    by blast
  from t' have "\<exists>u. parse ?s True = Inr u"
  proof
    assume "tail' = []"
    then show ?thesis
      unfolding p
      by (simp add: Index_slash_None [OF nosl] parseAuthority_regname_port [OF assms(2,3)]
          setPath_no_percent)
  next
    assume "\<exists>p. tail' = CHR ''/'' # p"
    then obtain pth where tl: "tail' = CHR ''/'' # pth" by blast
    have i: "Index ((host @ port) @ tail') ''/'' = Some (length (host @ port))"
      unfolding tl using nosl by (rule Index_slash_Some)
    show ?thesis
      unfolding p i using np
      by (simp add: parseAuthority_regname_port [OF assms(2,3)] setPath_no_percent)
  qed
  then show ?thesis
    by (auto simp: isValidURLString_def ParseRequestURI_def)
qed

subsection \<open>The paths of the handler\<close>

lemma redirectToShortcut_Inr: "\<exists>r. redirectToShortcut sc = Inr r"
  by (simp add: redirectToShortcut_def c_Redirect_def c_String_def c_HTML_def Let_def
      split: option.split)

lemma redirectToShortcut_not_HTTPError: "redirectToShortcut sc \<noteq> Inl e"
  using redirectToShortcut_Inr [of sc] by auto

lemma handler_found:
  assumes "c_ParamValues c = name # ps"
    and "Store_GetShortcut s \<lparr>find_Name = Some name\<rparr> w = (Inr (Some sc), w1)"
  shows "registerRedirectorRoutes s c w =
     (case visibilityCheck c sc of
        Some e \<Rightarrow> (Inl e, w1)
      | None \<Rightarrow>
          (case createShortcutViewActivity s c sc w1 of
             (Inl err, w2) \<Rightarrow>
               (Inl (HTTPError StatusInternalServerError
                       (''failed to create activity, err: '' @ err)), w2)
           | (Inr _, w2) \<Rightarrow>
               (redirectToShortcut sc, metric_Enqueue s ''shortcut redirect'' w2)))"
  using assms by (simp add: registerRedirectorRoutes_def)

lemma handler_not_found:
  assumes "c_ParamValues c = name # ps"
    and "Store_GetShortcut s \<lparr>find_Name = Some name\<rparr> w = (Inr None, w1)"
  shows "registerRedirectorRoutes s c w =
     (Inr (RedirectResponse StatusSeeOther (''/404?shortcut='' @ name)), w1)"
  using assms by (simp add: registerRedirectorRoutes_def c_Redirect_def)

lemma handler_lookup_error:
  assumes "c_ParamValues c = name # ps"
    and "Store_GetShortcut s \<lparr>find_Name = Some name\<rparr> w = (Inl err, w1)"
  shows "registerRedirectorRoutes s c w =
     (Inl (HTTPError StatusInternalServerError (''failed to get shortcut, err: '' @ err)), w1)"
  using assms by (simp add: registerRedirectorRoutes_def)

lemma visibilityCheck_Some_iff:
  "(visibilityCheck c sc \<noteq> None) =
     (Visibility sc \<noteq> PUBLIC \<and>
      (c_userID c = None \<or> Visibility sc = PRIVATE \<and> c_userID c \<noteq> Some (CreatorId sc)))"
  by (auto simp: visibilityCheck_def split: option.splits)

lemma visibilityCheck_Some:
  "visibilityCheck c sc = Some e \<Longrightarrow> e = HTTPError StatusUnauthorized ''Unauthorized''"
  by (auto simp: visibilityCheck_def split: option.splits if_splits)


lemma mem_lookup:
  "Store_GetShortcut memService \<lparr>find_Name = Some n\<rparr> (memWorld scs) =
     (Inr (find (\<lambda>sc. Name sc = n) scs), (memWorld scs)\<lparr>storeCalls := [''GetShortcut'']\<rparr>)"
  by (simp add: memService_def memWorld_def)

subsection \<open>Visibility\<close>

text \<open>
  C1, as the code has it: for a shortcut that was found and is not \<open>PUBLIC\<close>, the handler
  fails with Unauthorized (401) exactly when the caller is unauthenticated, or the
  visibility is \<open>PRIVATE\<close> and the caller's identity differs from \<open>CreatorId\<close>. A
  \<open>WORKSPACE\<close> shortcut passes the check for every authenticated caller.
\<close>

theorem unauthorized_iff:
  assumes "c_ParamValues c = name # ps"
    and "Store_GetShortcut s \<lparr>find_Name = Some name\<rparr> w = (Inr (Some sc), w1)"
    and "Visibility sc \<noteq> PUBLIC"
  shows "(fst (registerRedirectorRoutes s c w) = Inl (HTTPError StatusUnauthorized ''Unauthorized''))
       = (c_userID c = None \<or> Visibility sc = PRIVATE \<and> c_userID c \<noteq> Some (CreatorId sc))"
proof (cases "visibilityCheck c sc")
  case None
  then have "\<not> (c_userID c = None \<or> Visibility sc = PRIVATE \<and> c_userID c \<noteq> Some (CreatorId sc))"
    using visibilityCheck_Some_iff [of c sc] assms(3) by simp
  moreover have "fst (registerRedirectorRoutes s c w) \<noteq> Inl (HTTPError StatusUnauthorized ''Unauthorized'')"
    using None redirectToShortcut_not_HTTPError
    by (simp add: handler_found [OF assms(1,2)] split: prod.split sum.split)
  ultimately show ?thesis by simp
next
  case (Some e)
  then have "c_userID c = None \<or> Visibility sc = PRIVATE \<and> c_userID c \<noteq> Some (CreatorId sc)"
    using visibilityCheck_Some_iff [of c sc] by simp
  moreover have "fst (registerRedirectorRoutes s c w) = Inl (HTTPError StatusUnauthorized ''Unauthorized'')"
    using Some visibilityCheck_Some [OF Some] by (simp add: handler_found [OF assms(1,2)])
  ultimately show ?thesis by simp
qed

theorem unauthorized_iff_witness:
  "c_ParamValues (mkRequest [''x''] (Some 9)) = [''x''] \<and>
   Store_GetShortcut memService \<lparr>find_Name = Some ''x''\<rparr>
       (memWorld [mkShortcut ''x'' ''https://example.com'' PRIVATE None]) =
     (Inr (Some (mkShortcut ''x'' ''https://example.com'' PRIVATE None)),
      (memWorld [mkShortcut ''x'' ''https://example.com'' PRIVATE None])
        \<lparr>storeCalls := [''GetShortcut'']\<rparr>) \<and>
   Visibility (mkShortcut ''x'' ''https://example.com'' PRIVATE None) \<noteq> PUBLIC \<and>
   fst (registerRedirectorRoutes memService (mkRequest [''x''] (Some 9))
          (memWorld [mkShortcut ''x'' ''https://example.com'' PRIVATE None])) =
     Inl (HTTPError StatusUnauthorized ''Unauthorized'')"
proof -
  let ?sc = "mkShortcut ''x'' ''https://example.com'' PRIVATE None"
  have h1: "c_ParamValues (mkRequest [''x''] (Some 9)) = [''x'']"
    by (simp add: mkRequest_def)
  have h2: "Store_GetShortcut memService \<lparr>find_Name = Some ''x''\<rparr> (memWorld [?sc]) =
      (Inr (Some ?sc), (memWorld [?sc])\<lparr>storeCalls := [''GetShortcut'']\<rparr>)"
    by (simp add: mem_lookup) (simp add: mkShortcut_def)
  have h3: "Visibility ?sc \<noteq> PUBLIC"
    by (simp add: mkShortcut_def)
  have h4: "Visibility ?sc = PRIVATE \<and> c_userID (mkRequest [''x''] (Some 9)) \<noteq> Some (CreatorId ?sc)"
    by (simp add: mkShortcut_def mkRequest_def)
  have "fst (registerRedirectorRoutes memService (mkRequest [''x''] (Some 9)) (memWorld [?sc])) =
      Inl (HTTPError StatusUnauthorized ''Unauthorized'')"
    using unauthorized_iff [OF h1 h2 h3] h4 by simp
  with h1 h2 h3 show ?thesis by simp
qed

text \<open>The claim as written fails: a \<open>WORKSPACE\<close> shortcut of creator 7 is served to the
  authenticated caller 9.\<close>

theorem workspace_other_user_counterexample:
  "Visibility (mkShortcut ''x'' ''https://example.com'' WORKSPACE None) \<noteq> PUBLIC \<and>
   CreatorId (mkShortcut ''x'' ''https://example.com'' WORKSPACE None) \<noteq> 9 \<and>
   fst (registerRedirectorRoutes memService (mkRequest [''x''] (Some 9))
          (memWorld [mkShortcut ''x'' ''https://example.com'' WORKSPACE None])) =
     Inr (RedirectResponse StatusSeeOther ''https://example.com'')"
proof -
  have "fst (registerRedirectorRoutes memService (mkRequest [''x''] (Some 9))
          (memWorld [mkShortcut ''x'' ''https://example.com'' WORKSPACE None])) =
     Inr (RedirectResponse StatusSeeOther ''https://example.com'')"
    by code_simp
  then show ?thesis by (simp add: mkShortcut_def)
qed

subsection \<open>The missing parameter and the empty name\<close>

text \<open>
  C6, as the code has it: when the request carries no parameter value at all (the list
  \<open>c.ParamValues()\<close> is empty), the handler fails with InvalidRequest (400) and leaves the
  collaborators' state untouched, whatever the store is: no lookup, no activity write.
\<close>

theorem no_params_bad_request:
  "c_ParamValues c = [] \<Longrightarrow>
   registerRedirectorRoutes s c w = (Inl (HTTPError StatusBadRequest ''invalid shortcut name''), w)"
  by (simp add: registerRedirectorRoutes_def)

theorem no_params_bad_request_witness:
  "c_ParamValues (mkRequest [] None) = [] \<and>
   registerRedirectorRoutes memService (mkRequest [] None) (memWorld []) =
     (Inl (HTTPError StatusBadRequest ''invalid shortcut name''), memWorld []) \<and>
   storeCalls (snd (registerRedirectorRoutes memService (mkRequest [] None) (memWorld []))) = []"
proof -
  have h: "c_ParamValues (mkRequest [] None) = []" by (simp add: mkRequest_def)
  from no_params_bad_request [OF h, of memService "memWorld []"] h show ?thesis
    by (simp add: memWorld_def)
qed

text \<open>The claim as written fails: a path segment that is the empty string is a parameter
  value like any other; the handler looks the name \<open>""\<close> up in the store (one call) and
  answers with the not-found redirect.\<close>

theorem empty_segment_counterexample:
  "c_ParamValues (mkRequest [''''] None) = [''''] \<and>
   registerRedirectorRoutes memService (mkRequest [''''] None) (memWorld []) =
     (Inr (RedirectResponse StatusSeeOther ''/404?shortcut=''),
      \<lparr>shortcuts = [], activities = [], storeCalls = [''GetShortcut''], metricEvents = []\<rparr>)"
  by (simp add: mkRequest_def registerRedirectorRoutes_def memService_def memWorld_def c_Redirect_def)

subsection \<open>The not-found redirect\<close>

text \<open>
  C7, as the code has it: when the store has no shortcut of the requested name, the
  handler returns no error and writes a 303 See Other redirect whose \<open>Location\<close> is
  \<open>/404?shortcut=\<close> followed by the name as it was received, byte for byte.
\<close>

theorem not_found_redirect:
  assumes "c_ParamValues c = name # ps"
    and "Store_GetShortcut s \<lparr>find_Name = Some name\<rparr> w = (Inr None, w1)"
  shows "registerRedirectorRoutes s c w =
     (Inr (RedirectResponse StatusSeeOther (''/404?shortcut='' @ name)), w1)"
  using assms by (rule handler_not_found)

theorem not_found_redirect_witness:
  "c_ParamValues (mkRequest [''docs''] None) = [''docs''] \<and>
   Store_GetShortcut memService \<lparr>find_Name = Some ''docs''\<rparr> (memWorld []) =
     (Inr None, (memWorld [])\<lparr>storeCalls := [''GetShortcut'']\<rparr>) \<and>
   registerRedirectorRoutes memService (mkRequest [''docs''] None) (memWorld []) =
     (Inr (RedirectResponse StatusSeeOther ''/404?shortcut=docs''),
      (memWorld [])\<lparr>storeCalls := [''GetShortcut'']\<rparr>)"
proof -
  have h1: "c_ParamValues (mkRequest [''docs''] None) = [''docs'']"
    by (simp add: mkRequest_def)
  have h2: "Store_GetShortcut memService \<lparr>find_Name = Some ''docs''\<rparr> (memWorld []) =
      (Inr None, (memWorld [])\<lparr>storeCalls := [''GetShortcut'']\<rparr>)"
    by (simp add: mem_lookup)
  from not_found_redirect [OF h1 h2] h1 h2 show ?thesis by simp
qed

text \<open>The claim as written fails: the name is not URL-encoded. For the name \<open>a b&c\<close> the
  header holds the space and the ampersand as they are.\<close>

theorem not_found_name_not_encoded_counterexample:
  "fst (registerRedirectorRoutes memService (mkRequest [''a b&c''] None) (memWorld [])) =
     Inr (RedirectResponse StatusSeeOther ''/404?shortcut=a b&c'') \<and>
   spec_urlEncode ''a b&c'' = ''a+b%26c'' \<and>
   fst (registerRedirectorRoutes memService (mkRequest [''a b&c''] None) (memWorld [])) \<noteq>
     Inr (RedirectResponse StatusSeeOther (''/404?shortcut='' @ spec_urlEncode ''a b&c''))"
proof -
  have a: "fst (registerRedirectorRoutes memService (mkRequest [''a b&c''] None) (memWorld [])) =
     Inr (RedirectResponse StatusSeeOther ''/404?shortcut=a b&c'')"
    by code_simp
  have b: "spec_urlEncode ''a b&c'' = ''a+b%26c''"
    by code_simp
  show ?thesis unfolding a b by simp
qed

subsection \<open>No activity on the failing and not-found paths\<close>

lemma visibilityCheck_PUBLIC: "Visibility sc = PUBLIC \<Longrightarrow> visibilityCheck c sc = None"
  by (simp add: visibilityCheck_def)

lemma createShortcutViewActivity_userID:
  "createShortcutViewActivity s (c\<lparr>c_userID := u\<rparr>) sc w = createShortcutViewActivity s c sc w"
  by (simp add: createShortcutViewActivity_def)

text \<open>
  C9: when the lookup finds nothing, or fails, or the visibility check answers
  Unauthorized (401), the handler does not reach \<open>createShortcutViewActivity\<close>: the state
  it leaves is the state right after the lookup, and its result is the same whatever
  \<open>Store.CreateActivity\<close> is. So an activity is written only when a shortcut was found and
  the visibility check passed.
\<close>

theorem no_activity_without_resolution:
  assumes "c_ParamValues c = name # ps"
    and "Store_GetShortcut s \<lparr>find_Name = Some name\<rparr> w = (r, w1)"
    and "r = Inr None \<or> (\<exists>err. r = Inl err) \<or>
         (\<exists>sc. r = Inr (Some sc) \<and>
               visibilityCheck c sc = Some (HTTPError StatusUnauthorized ''Unauthorized''))"
  shows "snd (registerRedirectorRoutes s c w) = w1 \<and>
         registerRedirectorRoutes (s\<lparr>Store_CreateActivity := f\<rparr>) c w =
           registerRedirectorRoutes s c w"
proof -
  let ?s' = "s\<lparr>Store_CreateActivity := f\<rparr>"
  from assms(3) consider
      (missing) "r = Inr None"
    | (failed) err where "r = Inl err"
    | (denied) sc where "r = Inr (Some sc)"
        "visibilityCheck c sc = Some (HTTPError StatusUnauthorized ''Unauthorized'')"
    by blast
  then show ?thesis
  proof cases
    case missing
    have l: "Store_GetShortcut s \<lparr>find_Name = Some name\<rparr> w = (Inr None, w1)"
      using assms(2) missing by simp
    then have l': "Store_GetShortcut ?s' \<lparr>find_Name = Some name\<rparr> w = (Inr None, w1)"
      by simp
    show ?thesis
      unfolding handler_not_found [OF assms(1) l] handler_not_found [OF assms(1) l']
      by simp
  next
    case failed
    have l: "Store_GetShortcut s \<lparr>find_Name = Some name\<rparr> w = (Inl err, w1)"
      using assms(2) failed by simp
    then have l': "Store_GetShortcut ?s' \<lparr>find_Name = Some name\<rparr> w = (Inl err, w1)"
      by simp
    show ?thesis
      unfolding handler_lookup_error [OF assms(1) l] handler_lookup_error [OF assms(1) l']
      by simp
  next
    case denied
    have l: "Store_GetShortcut s \<lparr>find_Name = Some name\<rparr> w = (Inr (Some sc), w1)"
      using assms(2) denied(1) by simp
    then have l': "Store_GetShortcut ?s' \<lparr>find_Name = Some name\<rparr> w = (Inr (Some sc), w1)"
      by simp
    show ?thesis
      unfolding handler_found [OF assms(1) l] handler_found [OF assms(1) l']
      by (simp add: denied(2))
  qed
qed

theorem no_activity_without_resolution_witness:
  "activities (snd (registerRedirectorRoutes memService (mkRequest [''x''] None)
      (memWorld [mkShortcut ''x'' ''https://example.com'' PRIVATE None]))) = [] \<and>
   fst (registerRedirectorRoutes memService (mkRequest [''x''] None)
      (memWorld [mkShortcut ''x'' ''https://example.com'' PRIVATE None])) =
     Inl (HTTPError StatusUnauthorized ''Unauthorized'') \<and>
   activities (snd (registerRedirectorRoutes memService (mkRequest [''y''] None)
      (memWorld [mkShortcut ''x'' ''https://example.com'' PRIVATE None]))) = [] \<and>
   fst (registerRedirectorRoutes memService (mkRequest [''y''] None)
      (memWorld [mkShortcut ''x'' ''https://example.com'' PRIVATE None])) =
     Inr (RedirectResponse StatusSeeOther ''/404?shortcut=y'')"
proof -
  let ?sc = "mkShortcut ''x'' ''https://example.com'' PRIVATE None"
  let ?w1 = "(memWorld [?sc])\<lparr>storeCalls := [''GetShortcut'']\<rparr>"
  have px: "c_ParamValues (mkRequest [''x''] None) = [''x'']"
    and py: "c_ParamValues (mkRequest [''y''] None) = [''y'']"
    by (simp_all add: mkRequest_def)
  have lx: "Store_GetShortcut memService \<lparr>find_Name = Some ''x''\<rparr> (memWorld [?sc]) =
      (Inr (Some ?sc), ?w1)"
    by (simp add: mem_lookup) (simp add: mkShortcut_def)
  have ly: "Store_GetShortcut memService \<lparr>find_Name = Some ''y''\<rparr> (memWorld [?sc]) =
      (Inr None, ?w1)"
    by (simp add: mem_lookup) (simp add: mkShortcut_def)
  have vx: "visibilityCheck (mkRequest [''x''] None) ?sc =
      Some (HTTPError StatusUnauthorized ''Unauthorized'')"
    by (simp add: visibilityCheck_def mkShortcut_def mkRequest_def)
  have "snd (registerRedirectorRoutes memService (mkRequest [''x''] None) (memWorld [?sc])) = ?w1"
    using no_activity_without_resolution [OF px lx] vx by simp
  moreover have "snd (registerRedirectorRoutes memService (mkRequest [''y''] None) (memWorld [?sc])) = ?w1"
    using no_activity_without_resolution [OF py ly] by simp
  moreover have "activities ?w1 = []" by (simp add: memWorld_def)
  moreover have "fst (registerRedirectorRoutes memService (mkRequest [''x''] None) (memWorld [?sc])) =
     Inl (HTTPError StatusUnauthorized ''Unauthorized'')"
    using handler_found [OF px lx] vx by simp
  moreover have "fst (registerRedirectorRoutes memService (mkRequest [''y''] None) (memWorld [?sc])) =
     Inr (RedirectResponse StatusSeeOther ''/404?shortcut=y'')"
    using handler_not_found [OF py ly] by simp
  ultimately show ?thesis by simp
qed

subsection \<open>PUBLIC shortcuts and the caller\<close>

text \<open>
  C10: for a \<open>PUBLIC\<close> shortcut the handler's response, and the state it leaves, do not
  depend on the caller's identity: replacing the value under \<open>userIDContextKey\<close> by any
  other (absent, or any user id) gives the same result.
\<close>

theorem public_independent_of_caller:
  assumes "c_ParamValues c = name # ps"
    and "Store_GetShortcut s \<lparr>find_Name = Some name\<rparr> w = (Inr (Some sc), w1)"
    and "Visibility sc = PUBLIC"
  shows "registerRedirectorRoutes s (c\<lparr>c_userID := u\<rparr>) w = registerRedirectorRoutes s c w"
proof -
  have p: "c_ParamValues (c\<lparr>c_userID := u\<rparr>) = name # ps"
    using assms(1) by simp
  show ?thesis
    unfolding handler_found [OF p assms(2)] handler_found [OF assms(1,2)]
    by (simp add: visibilityCheck_PUBLIC [OF assms(3)] createShortcutViewActivity_userID)
qed

theorem public_independent_of_caller_witness:
  "registerRedirectorRoutes memService (mkRequest [''x''] (Some 9))
      (memWorld [mkShortcut ''x'' ''https://example.com'' PUBLIC None]) =
   registerRedirectorRoutes memService (mkRequest [''x''] None)
      (memWorld [mkShortcut ''x'' ''https://example.com'' PUBLIC None]) \<and>
   fst (registerRedirectorRoutes memService (mkRequest [''x''] None)
      (memWorld [mkShortcut ''x'' ''https://example.com'' PUBLIC None])) =
     Inr (RedirectResponse StatusSeeOther ''https://example.com'')"
proof -
  let ?sc = "mkShortcut ''x'' ''https://example.com'' PUBLIC None"
  have p: "c_ParamValues (mkRequest [''x''] None) = [''x'']"
    by (simp add: mkRequest_def)
  have l: "Store_GetShortcut memService \<lparr>find_Name = Some ''x''\<rparr> (memWorld [?sc]) =
      (Inr (Some ?sc), (memWorld [?sc])\<lparr>storeCalls := [''GetShortcut'']\<rparr>)"
    by (simp add: mem_lookup) (simp add: mkShortcut_def)
  have v: "Visibility ?sc = PUBLIC" by (simp add: mkShortcut_def)
  have u: "(mkRequest [''x''] None)\<lparr>c_userID := Some 9\<rparr> = mkRequest [''x''] (Some 9)"
    by (simp add: mkRequest_def)
  have "registerRedirectorRoutes memService (mkRequest [''x''] (Some 9)) (memWorld [?sc]) =
      registerRedirectorRoutes memService (mkRequest [''x''] None) (memWorld [?sc])"
    using public_independent_of_caller [OF p l v, of "Some 9"] unfolding u .
  moreover have "fst (registerRedirectorRoutes memService (mkRequest [''x''] None) (memWorld [?sc])) =
     Inr (RedirectResponse StatusSeeOther ''https://example.com'')"
    by code_simp
  ultimately show ?thesis by simp
qed

subsection \<open>Rendering\<close>

lemma redirectToShortcut_html:
  "OgMetadata sc = Some og \<Longrightarrow> \<not> noOgMetadata sc \<Longrightarrow>
   redirectToShortcut sc =
     Inr (HTMLResponse StatusOK
            (htmlTemplate (concat (metadataList og (Link sc))) (body (Link sc))))"
  by (auto simp: redirectToShortcut_def noOgMetadata_def c_HTML_def Let_def)

lemma metadataList_valid:
  \<open>isValidURLString link \<Longrightarrow>
   metadataList og link =
     [''<title>'' @ Title og @ ''</title>'',
      ''<meta name="description" content="'' @ Description og @ ''" />'',
      ''<meta property="og:title" content="'' @ Title og @ ''" />'',
      ''<meta property="og:description" content="'' @ Description og @ ''" />'',
      ''<meta property="og:image" content="'' @ Image_og og @ ''" />'',
      ''<meta property="og:type" content="website" />'',
      ''<meta name="twitter:title" content="'' @ Title og @ ''" />'',
      ''<meta name="twitter:description" content="'' @ Description og @ ''" />'',
      ''<meta name="twitter:image" content="'' @ Image_og og @ ''" />'',
      ''<meta name="twitter:card" content="summary_large_image" />'',
      ''<meta property="og:url" content="'' @ link @ ''" />'']\<close>
  by (simp add: metadataList_def)

lemma metadataList_raw:
  \<open>\<not> isValidURLString link \<Longrightarrow>
   metadataList og link =
     [''<title>'' @ Title og @ ''</title>'',
      ''<meta name="description" content="'' @ Description og @ ''" />'',
      ''<meta property="og:title" content="'' @ Title og @ ''" />'',
      ''<meta property="og:description" content="'' @ Description og @ ''" />'',
      ''<meta property="og:image" content="'' @ Image_og og @ ''" />'',
      ''<meta property="og:type" content="website" />'',
      ''<meta name="twitter:title" content="'' @ Title og @ ''" />'',
      ''<meta name="twitter:description" content="'' @ Description og @ ''" />'',
      ''<meta name="twitter:image" content="'' @ Image_og og @ ''" />'',
      ''<meta name="twitter:card" content="summary_large_image" />'']\<close>
  by (simp add: metadataList_def)

lemma og_url_tag_iff:
  \<open>(\<exists>t\<in>set (metadataList og link). prefix ''<meta property="og:url"'' t) = isValidURLString link\<close>
proof (cases "isValidURLString link")
  case True
  then show ?thesis by (simp add: metadataList_valid)
next
  case False
  then show ?thesis by (simp add: metadataList_raw)
qed

lemma valid_example: "isValidURLString ''https://example.com''"
  by code_simp

lemma raw_example: "\<not> isValidURLString ''not a url''"
  by code_simp







text \<open>
  C4: when the metadata is absent (the pointer is \<open>nil\<close>, or all three fields are
  empty), \<open>redirectToShortcut\<close> answers with a 303 See Other redirect to the link if
  \<open>isValidURLString\<close> accepts the link, and with status 200 and the link itself as the
  plain-text body otherwise.
\<close>

theorem no_metadata_response:
  "noOgMetadata sc \<Longrightarrow>
   redirectToShortcut sc =
     (if isValidURLString (Link sc) then Inr (RedirectResponse StatusSeeOther (Link sc))
      else Inr (StringResponse StatusOK (Link sc)))"
  by (simp add: redirectToShortcut_def noOgMetadata_def c_Redirect_def c_String_def Let_def
      split: option.splits)

theorem no_metadata_response_witness:
  "noOgMetadata (mkShortcut ''x'' ''https://example.com'' PUBLIC None) \<and>
   redirectToShortcut (mkShortcut ''x'' ''https://example.com'' PUBLIC None) =
     Inr (RedirectResponse StatusSeeOther ''https://example.com'') \<and>
   noOgMetadata (mkShortcut ''x'' ''not a url'' PUBLIC
                   (Some \<lparr>Title = [], Description = [], Image_og = []\<rparr>)) \<and>
   redirectToShortcut (mkShortcut ''x'' ''not a url'' PUBLIC
                         (Some \<lparr>Title = [], Description = [], Image_og = []\<rparr>)) =
     Inr (StringResponse StatusOK ''not a url'')"
proof -
  let ?a = "mkShortcut ''x'' ''https://example.com'' PUBLIC None"
  let ?b = "mkShortcut ''x'' ''not a url'' PUBLIC
              (Some \<lparr>Title = [], Description = [], Image_og = []\<rparr>)"
  have ha: "noOgMetadata ?a" by (simp add: noOgMetadata_def mkShortcut_def)
  have hb: "noOgMetadata ?b" by (simp add: noOgMetadata_def mkShortcut_def)
  have la: "Link ?a = ''https://example.com''" and lb: "Link ?b = ''not a url''"
    by (simp_all add: mkShortcut_def)
  have "redirectToShortcut ?a = Inr (RedirectResponse StatusSeeOther ''https://example.com'')"
    using no_metadata_response [OF ha] valid_example unfolding la by simp
  moreover have "redirectToShortcut ?b = Inr (StringResponse StatusOK ''not a url'')"
    using no_metadata_response [OF hb] raw_example unfolding lb by simp
  ultimately show ?thesis using ha hb by simp
qed

text \<open>The page rendered for present metadata, and the tag list and body it is made of.\<close>

lemma metadata_page:
  assumes "OgMetadata sc = Some og" and "\<not> noOgMetadata sc"
  shows \<open>redirectToShortcut sc =
       Inr (HTMLResponse StatusOK
              (''<html><head>'' @ concat (metadataList og (Link sc)) @ ''</head><body>'' @
               body (Link sc) @ ''</body></html>'')) \<and>
     take 10 (metadataList og (Link sc)) =
       [''<title>'' @ Title og @ ''</title>'',
        ''<meta name="description" content="'' @ Description og @ ''" />'',
        ''<meta property="og:title" content="'' @ Title og @ ''" />'',
        ''<meta property="og:description" content="'' @ Description og @ ''" />'',
        ''<meta property="og:image" content="'' @ Image_og og @ ''" />'',
        ''<meta property="og:type" content="website" />'',
        ''<meta name="twitter:title" content="'' @ Title og @ ''" />'',
        ''<meta name="twitter:description" content="'' @ Description og @ ''" />'',
        ''<meta name="twitter:image" content="'' @ Image_og og @ ''" />'',
        ''<meta name="twitter:card" content="summary_large_image" />''] \<and>
     (isValidURLString (Link sc) \<longrightarrow>
        drop 10 (metadataList og (Link sc)) =
          [''<meta property="og:url" content="'' @ Link sc @ ''" />''] \<and>
        body (Link sc) = ''<script>window.location.href = "'' @ Link sc @ ''";</script>'') \<and>
     (\<not> isValidURLString (Link sc) \<longrightarrow>
        drop 10 (metadataList og (Link sc)) = [] \<and>
        (\<forall>t\<in>set (metadataList og (Link sc)). \<not> prefix ''<meta property="og:url"'' t) \<and>
        body (Link sc) = EscapeString (Link sc))\<close>
proof -
  have page: \<open>redirectToShortcut sc =
       Inr (HTMLResponse StatusOK
              (''<html><head>'' @ concat (metadataList og (Link sc)) @ ''</head><body>'' @
               body (Link sc) @ ''</body></html>''))\<close>
    using redirectToShortcut_html [OF assms] by (simp add: htmlTemplate_def)
  show ?thesis
  proof (cases "isValidURLString (Link sc)")
    case True
    show ?thesis
      unfolding page metadataList_valid [OF True] using True by (simp add: body_def)
  next
    case False
    have none: \<open>\<forall>t\<in>set (metadataList og (Link sc)). \<not> prefix ''<meta property="og:url"'' t\<close>
      using og_url_tag_iff [of og "Link sc"] False by blast
    show ?thesis
      using none False unfolding page metadataList_raw [OF False] by (simp add: body_def)
  qed
qed




text \<open>
  C2 asks for every metadata field to be HTML-escaped where it is put into the page. The
  code escapes the link in the body (line 85) and nothing else: a title that holds markup
  reaches the \<open>title\<close> element and the \<open>content\<close> attributes as it is. The page rendered
  for the title \<open><script>alert(1)</script>\<close>, next to what \<open>html.EscapeString\<close> makes of
  that title:
\<close>

theorem metadata_not_escaped:
  \<open>redirectToShortcut (mkShortcut ''x'' ''https://example.com'' PUBLIC
       (Some \<lparr>Title = ''<script>alert(1)</script>'', Description = ''D'', Image_og = []\<rparr>)) =
     Inr (HTMLResponse StatusOK
       (''<html><head><title><script>alert(1)</script></title><meta name="descri'' @
        ''ption" content="D" /><meta property="og:title" content="<script>alert('' @
        ''1)</script>" /><meta property="og:description" content="D" /><meta pro'' @
        ''perty="og:image" content="" /><meta property="og:type" content="websit'' @
        ''e" /><meta name="twitter:title" content="<script>alert(1)</script>" />'' @
        ''<meta name="twitter:description" content="D" /><meta name="twitter:ima'' @
        ''ge" content="" /><meta name="twitter:card" content="summary_large_imag'' @
        ''e" /><meta property="og:url" content="https://example.com" /></head><b'' @
        ''ody><script>window.location.href = "https://example.com";</script></bo'' @
        ''dy></html>'')) \<and>
   EscapeString ''<script>alert(1)</script>'' = ''&lt;script&gt;alert(1)&lt;/script&gt;''\<close>
proof -
  let ?og = "\<lparr>Title = ''<script>alert(1)</script>'', Description = ''D'', Image_og = []\<rparr>"
  let ?a = "mkShortcut ''x'' ''https://example.com'' PUBLIC (Some ?og)"
  have oa: "OgMetadata ?a = Some ?og" by (simp add: mkShortcut_def)
  have pa: "\<not> noOgMetadata ?a" by (simp add: noOgMetadata_def mkShortcut_def)
  have la: "Link ?a = ''https://example.com''" by (simp add: mkShortcut_def)
  have \<open>redirectToShortcut ?a = Inr (HTMLResponse StatusOK
       (''<html><head><title><script>alert(1)</script></title><meta name="descri'' @
        ''ption" content="D" /><meta property="og:title" content="<script>alert('' @
        ''1)</script>" /><meta property="og:description" content="D" /><meta pro'' @
        ''perty="og:image" content="" /><meta property="og:type" content="websit'' @
        ''e" /><meta name="twitter:title" content="<script>alert(1)</script>" />'' @
        ''<meta name="twitter:description" content="D" /><meta name="twitter:ima'' @
        ''ge" content="" /><meta name="twitter:card" content="summary_large_imag'' @
        ''e" /><meta property="og:url" content="https://example.com" /></head><b'' @
        ''ody><script>window.location.href = "https://example.com";</script></bo'' @
        ''dy></html>''))\<close>
    using redirectToShortcut_html [OF oa pa] unfolding la
    by (simp add: metadataList_valid [OF valid_example] body_def valid_example htmlTemplate_def)
  moreover have "EscapeString ''<script>alert(1)</script>'' = ''&lt;script&gt;alert(1)&lt;/script&gt;''"
    by (simp add: EscapeString_def htmlEscapeByte_def)
  ultimately show ?thesis by simp
qed

text \<open>
  C5 says that for a link that is not valid the page has no \<open>og:url\<close> tag. The tag list
  the code builds has none then, but the title is written into the page unescaped (the
  defect of C2): a title that holds the tag puts an \<open>og:url\<close> tag into the head of the
  page of a raw link.
\<close>

theorem og_url_tag_injected:
  \<open>\<not> isValidURLString ''not a url'' \<and>
   redirectToShortcut (mkShortcut ''x'' ''not a url'' PUBLIC
       (Some \<lparr>Title = ''</title><meta property="og:url" content="not a url" /><title>'',
              Description = ''D'', Image_og = []\<rparr>)) =
     Inr (HTMLResponse StatusOK
       (''<html><head><title></title>'' @
        ''<meta property="og:url" content="not a url" />'' @
        (''<title></title><meta name="description" content="D" /><meta property="'' @
        ''og:title" content="</title><meta property="og:url" content="not a url"'' @
        '' /><title>" /><meta property="og:description" content="D" /><meta prop'' @
        ''erty="og:image" content="" /><meta property="og:type" content="website'' @
        ''" /><meta name="twitter:title" content="</title><meta property="og:url'' @
        ''" content="not a url" /><title>" /><meta name="twitter:description" co'' @
        ''ntent="D" /><meta name="twitter:image" content="" /><meta name="twitte'' @
        ''r:card" content="summary_large_image" /></head><body>not a url</body><'' @
        ''/html>''))) \<and>
   sublist ''<meta property="og:url" content="not a url" />''
     (''<html><head><title></title>'' @
      ''<meta property="og:url" content="not a url" />'' @
      (''<title></title><meta name="description" content="D" /><meta property="'' @
        ''og:title" content="</title><meta property="og:url" content="not a url"'' @
        '' /><title>" /><meta property="og:description" content="D" /><meta prop'' @
        ''erty="og:image" content="" /><meta property="og:type" content="website'' @
        ''" /><meta name="twitter:title" content="</title><meta property="og:url'' @
        ''" content="not a url" /><title>" /><meta name="twitter:description" co'' @
        ''ntent="D" /><meta name="twitter:image" content="" /><meta name="twitte'' @
        ''r:card" content="summary_large_image" /></head><body>not a url</body><'' @
        ''/html>''))\<close>
proof -
  let ?og = \<open>\<lparr>Title = ''</title><meta property="og:url" content="not a url" /><title>'',
              Description = ''D'', Image_og = []\<rparr>\<close>
  let ?a = "mkShortcut ''x'' ''not a url'' PUBLIC (Some ?og)"
  have oa: "OgMetadata ?a = Some ?og" by (simp add: mkShortcut_def)
  have pa: "\<not> noOgMetadata ?a" by (simp add: noOgMetadata_def mkShortcut_def)
  have la: "Link ?a = ''not a url''" by (simp add: mkShortcut_def)
  have ea: "EscapeString ''not a url'' = ''not a url''"
    by (simp add: EscapeString_def htmlEscapeByte_def)
  have page: \<open>redirectToShortcut ?a =
     Inr (HTMLResponse StatusOK
       (''<html><head><title></title>'' @
        ''<meta property="og:url" content="not a url" />'' @
        (''<title></title><meta name="description" content="D" /><meta property="'' @
        ''og:title" content="</title><meta property="og:url" content="not a url"'' @
        '' /><title>" /><meta property="og:description" content="D" /><meta prop'' @
        ''erty="og:image" content="" /><meta property="og:type" content="website'' @
        ''" /><meta name="twitter:title" content="</title><meta property="og:url'' @
        ''" content="not a url" /><title>" /><meta name="twitter:description" co'' @
        ''ntent="D" /><meta name="twitter:image" content="" /><meta name="twitte'' @
        ''r:card" content="summary_large_image" /></head><body>not a url</body><'' @
        ''/html>'')))\<close>
    using redirectToShortcut_html [OF oa pa] unfolding la
    by (simp add: metadataList_raw [OF raw_example] body_def raw_example htmlTemplate_def ea)
  show ?thesis
    using raw_example page sublist_appendI by blast
qed

subsection \<open>Which links are valid\<close>

text \<open>
  C3, as the code has it: a link is valid exactly when \<open>url.ParseRequestURI\<close> returns no
  error. A valid link is not empty, holds no ASCII control byte, and is \<open>*\<close>, or starts
  with \<open>/\<close>, or starts with a scheme and a colon; so a string with no scheme that does not
  start with \<open>/\<close> and is not \<open>*\<close> (plain text, a relative path) is raw. A valid link need
  not have a scheme or an authority: \<open>*\<close> is valid, every string without control bytes and
  without \<open>%\<close> that starts with \<open>/\<close> is valid, and so is every string without control
  bytes that has a scheme whose remainder does not start with \<open>/\<close>. A link with a scheme
  and an authority, \<open>scheme://host\<close>, \<open>scheme://host:port\<close>, each possibly followed by
  \<open>/\<close> and more, is valid when the host is made of letters, digits, dots and hyphens, the
  port of digits, and what follows holds no control byte and no \<open>%\<close>.
\<close>

theorem isValidURLString_accepts:
  "(isValidURLString s \<longrightarrow>
      s \<noteq> [] \<and> \<not> stringContainsCTLByte s \<and>
      (s = ''*'' \<or> prefix ''/'' s \<or>
       (\<exists>sch r. sch \<noteq> [] \<and> getScheme s = Inr (sch, r) \<and> s = sch @ '':'' @ r))) \<and>
   (s \<noteq> ''*'' \<and> \<not> prefix ''/'' s \<and> (\<forall>sch r. getScheme s = Inr (sch, r) \<longrightarrow> sch = []) \<longrightarrow>
      \<not> isValidURLString s) \<and>
   isValidURLString ''*'' \<and>
   (\<not> stringContainsCTLByte s \<and> prefix ''/'' s \<and> CHR ''%'' \<notin> set s \<longrightarrow>
      isValidURLString s) \<and>
   (\<not> stringContainsCTLByte s \<and>
    (\<exists>sch r. getScheme s = Inr (sch, r) \<and> sch \<noteq> [] \<and> \<not> prefix ''/'' r) \<longrightarrow>
      isValidURLString s) \<and>
   (validScheme sch \<and> list_all regNameByte host \<and> validOptionalPort port \<and>
    (tail = [] \<or> prefix ''/'' tail) \<and> \<not> stringContainsCTLByte tail \<and> CHR ''%'' \<notin> set tail \<longrightarrow>
      isValidURLString (sch @ ''://'' @ host @ port @ tail))"
proof -
  have shape: "isValidURLString s \<longrightarrow>
      s \<noteq> [] \<and> \<not> stringContainsCTLByte s \<and>
      (s = ''*'' \<or> prefix ''/'' s \<or>
       (\<exists>sch r. sch \<noteq> [] \<and> getScheme s = Inr (sch, r) \<and> s = sch @ '':'' @ r))"
    using isValid_shape [of s] by blast
  have raw: "s \<noteq> ''*'' \<and> \<not> prefix ''/'' s \<and> (\<forall>sch r. getScheme s = Inr (sch, r) \<longrightarrow> sch = []) \<longrightarrow>
      \<not> isValidURLString s"
    using shape by blast
  have star: "isValidURLString ''*''"
    by code_simp
  have path: "\<not> stringContainsCTLByte s \<and> prefix ''/'' s \<and> CHR ''%'' \<notin> set s \<longrightarrow>
      isValidURLString s"
    using isValid_abs_path [of s] by blast
  have opaque: "\<not> stringContainsCTLByte s \<and>
    (\<exists>sch r. getScheme s = Inr (sch, r) \<and> sch \<noteq> [] \<and> \<not> prefix ''/'' r) \<longrightarrow>
      isValidURLString s"
    using isValid_opaque [of s] by blast
  have authority: "validScheme sch \<and> list_all regNameByte host \<and> validOptionalPort port \<and>
    (tail = [] \<or> prefix ''/'' tail) \<and> \<not> stringContainsCTLByte tail \<and> CHR ''%'' \<notin> set tail \<longrightarrow>
      isValidURLString (sch @ ''://'' @ host @ port @ tail)"
    using isValid_authority [of sch host port tail] by blast
  from shape raw star path opaque authority show ?thesis by blast
qed

theorem isValidURLString_accepts_witness:
  "isValidURLString ''https://example.com'' \<and>
   isValidURLString ''https://example.com:8080/a/b?x=1'' \<and>
   isValidURLString ''/foo/bar'' \<and>
   isValidURLString ''mailto:a@b.c'' \<and>
   \<not> isValidURLString ''foo/bar'' \<and>
   \<not> isValidURLString ''not a url''"
proof -
  have a: "\<not> stringContainsCTLByte ''/foo/bar'' \<and> prefix ''/'' ''/foo/bar'' \<and>
      CHR ''%'' \<notin> set ''/foo/bar''"
    by code_simp
  have b1: "\<not> stringContainsCTLByte ''mailto:a@b.c''"
    by code_simp
  have b2: "getScheme ''mailto:a@b.c'' = Inr (''mailto'', ''a@b.c'')"
    by code_simp
  have b3: "\<not> prefix ''/'' ''a@b.c''" by simp
  have c1: "getScheme ''foo/bar'' = Inr ([], ''foo/bar'')"
    by code_simp
  have c2: "''foo/bar'' \<noteq> ''*'' \<and> \<not> prefix ''/'' ''foo/bar''" by simp
  have d1: "getScheme ''not a url'' = Inr ([], ''not a url'')"
    by code_simp
  have d2: "''not a url'' \<noteq> ''*'' \<and> \<not> prefix ''/'' ''not a url''" by simp
  have e: "validScheme ''https'' \<and> list_all regNameByte ''example.com'' \<and>
      validOptionalPort [] \<and> validOptionalPort '':8080'' \<and>
      \<not> stringContainsCTLByte [] \<and> \<not> stringContainsCTLByte ''/a/b?x=1'' \<and>
      prefix ''/'' ''/a/b?x=1'' \<and> CHR ''%'' \<notin> set ''/a/b?x=1''"
    by code_simp
  have "isValidURLString (''https'' @ ''://'' @ ''example.com'' @ [] @ [])"
    using isValidURLString_accepts [of s "''https''" "''example.com''" "[]" "[]"] e by simp
  then have "isValidURLString ''https://example.com''" by simp
  moreover have "isValidURLString (''https'' @ ''://'' @ ''example.com'' @ '':8080'' @ ''/a/b?x=1'')"
    using isValidURLString_accepts [of s "''https''" "''example.com''" "'':8080''" "''/a/b?x=1''"] e
    by blast
  then have "isValidURLString ''https://example.com:8080/a/b?x=1''" by simp
  moreover have "isValidURLString ''/foo/bar''"
    using isValidURLString_accepts [of "''/foo/bar''"] a by blast
  moreover have "isValidURLString ''mailto:a@b.c''"
    using isValidURLString_accepts [of "''mailto:a@b.c''"] b1 b2 b3 by blast
  moreover have "\<not> isValidURLString ''foo/bar''"
    using isValidURLString_accepts [of "''foo/bar''"] c1 c2 by auto
  moreover have "\<not> isValidURLString ''not a url''"
    using isValidURLString_accepts [of "''not a url''"] d1 d2 by auto
  ultimately show ?thesis by blast
qed

text \<open>The claim as written fails: the absolute path \<open>/foo/bar\<close> has neither scheme nor
  authority, and \<open>mailto:a@b.c\<close> has no authority; both are valid.\<close>

theorem path_without_scheme_counterexample:
  "isValidURLString ''/foo/bar'' \<and>
   ParseRequestURI ''/foo/bar'' =
     Inr \<lparr>Scheme = [], Opaque = [], User = None, Host = [], Path = ''/foo/bar'',
          OmitHost = False, ForceQuery = False, RawQuery = []\<rparr> \<and>
   isValidURLString ''mailto:a@b.c'' \<and>
   ParseRequestURI ''mailto:a@b.c'' =
     Inr \<lparr>Scheme = ''mailto'', Opaque = ''a@b.c'', User = None, Host = [], Path = [],
          OmitHost = False, ForceQuery = False, RawQuery = []\<rparr>"
  by code_simp

end
